theory Spec2Isabelle
  imports Main "HOL-Library.Word"
begin

unbundle bit_operations_syntax

section \<open>bpfcov: the command line tool (cli.c)\<close>

text \<open>
  A shallow embedding of the parts of \<^verbatim>\<open>cli.c\<close> that pin the coverage maps
  (\<^verbatim>\<open>root_parse\<close>, \<^verbatim>\<open>get_pin_path\<close>, \<^verbatim>\<open>run\<close>) and that write the profraw file
  (\<^verbatim>\<open>get_global_data\<close>, \<^verbatim>\<open>gen\<close>). The kernel, the BPF file system, the traced
  process and the C heap are explicit state; what the operating system answers to a call
  the tracer makes is an input of the model.
\<close>

subsection \<open>Machine data\<close>

type_synonym byte = "8 word"
type_synonym u32 = "32 word"
type_synonym u64 = "64 word"

text \<open>The target is x86-64 (\<^verbatim>\<open>struct user_regs_struct\<close> with \<^verbatim>\<open>orig_rax\<close>): integers are
  stored least significant byte first.\<close>

definition le32 :: "u32 \<Rightarrow> byte list" where
  "le32 w = map (\<lambda>i. ucast (drop_bit (8 * i) w)) [0..<4]"

definition le64 :: "u64 \<Rightarrow> byte list" where
  "le64 w = map (\<lambda>i. ucast (drop_bit (8 * i) w)) [0..<8]"

definition le_word :: "byte list \<Rightarrow> 'a::len word" where
  "le_word bs = foldr (\<lambda>b acc. ucast b OR push_bit 8 acc) bs 0"

text \<open>What goes wrong in C without an error code: the behaviour is undefined.\<close>

datatype fault = NullDeref | OutOfBounds

subsection \<open>Kernel objects and the state of the world\<close>

text \<open>\<^verbatim>\<open>struct bpf_map_info\<close> of \<^verbatim>\<open>linux/bpf.h\<close>: its leading fields, in the order of the
  declaration, each a \<^verbatim>\<open>__u32\<close> but the name (\<^verbatim>\<open>char name[BPF_OBJ_NAME_LEN]\<close>).\<close>

record bpf_map_info =
  map_type :: u32
  map_id :: u32
  key_size :: u32
  value_size :: u32
  max_entries :: u32
  map_flags :: u32
  name :: string

definition zero_info :: bpf_map_info where
  "zero_info = \<lparr>map_type = 0, map_id = 0, key_size = 0, value_size = 0, max_entries = 0,
     map_flags = 0, name = []\<rparr>"

text \<open>A map in the kernel: what \<^verbatim>\<open>bpf_obj_get_info_by_fd\<close> reports about it, its
  entries in the order \<^verbatim>\<open>bpf_map_get_next_key\<close> walks them, and whether the kernel
  refuses \<^verbatim>\<open>bpf_map_lookup_elem\<close> from user space on it, as it does for the map types that
  hold descriptors: the keys of such a map can be walked and its values cannot be read.\<close>

record bpf_map =
  info :: bpf_map_info
  entries :: "(byte list \<times> byte list) list"
  lookup_refused :: bool

text \<open>The invariant the kernel keeps on a map: no more entries than declared, keys and
  values of the declared sizes.\<close>

definition wf_map :: "bpf_map \<Rightarrow> bool" where
  "wf_map m \<longleftrightarrow>
     length (entries m) \<le> unat (max_entries (info m)) \<and>
     list_all (\<lambda>(k, v). length k = unat (key_size (info m)) \<and>
                         length v = unat (value_size (info m))) (entries m)"

text \<open>The world of the tool: the pins of the BPF file system by path, the paths at
  which the file systems refuse to create or remove anything, the descriptor table of
  the tool, the live blocks of its heap (address and size) with the bytes the allocator
  can still give, and the regular files by path.\<close>

record world =
  w_pins :: "string \<rightharpoonup> bpf_map"
  w_denied :: "string \<Rightarrow> bool"
  w_fds :: "(int \<times> bpf_map) list"
  w_heap :: "(nat \<times> nat) list"
  w_avail :: nat
  w_files :: "string \<rightharpoonup> byte list"

text \<open>\<^verbatim>\<open>access(path, F_OK) == 0\<close> on a path of the BPF file system.\<close>

definition access_ok :: "string \<Rightarrow> world \<Rightarrow> bool" where
  "access_ok path w \<longleftrightarrow> w_pins w path \<noteq> None"

text \<open>\<^verbatim>\<open>unlink(path)\<close>: \<open>None\<close> is a return value other than 0.\<close>

definition unlink :: "string \<Rightarrow> world \<Rightarrow> world option" where
  "unlink path w =
     (if w_pins w path = None \<or> w_denied w path then None
      else Some (w\<lparr>w_pins := (w_pins w)(path := None)\<rparr>))"

subsection \<open>The arguments of the tool and the pin registry\<close>

definition NUM_PINNED_MAPS :: nat where
  "NUM_PINNED_MAPS = 4"

text \<open>\<^verbatim>\<open>PATH_MAX\<close> of \<^verbatim>\<open>linux/limits.h\<close>.\<close>

definition PATH_MAX :: nat where
  "PATH_MAX = 4096"

text \<open>\<^verbatim>\<open>struct root_args\<close>; the array \<^verbatim>\<open>pin[NUM_PINNED_MAPS]\<close> is a function of the
  index. The fields that neither the pinning nor the writer reads (\<^verbatim>\<open>bpffs\<close>,
  \<^verbatim>\<open>cov_root\<close>, \<^verbatim>\<open>command\<close>) are left out.\<close>

record root_args =
  output_path :: string
  prog_root :: string
  pin :: "nat \<Rightarrow> string"
  verbosity :: int
  program :: "string list"

text \<open>What \<^verbatim>\<open>argp_error\<close> and \<^verbatim>\<open>log_fata\<close> print before they end the process.\<close>

datatype diag =
    PathTooLong string
  | CouldNotUnpin string
  | CouldNotAccess string
  | CouldNotGetInfo string
  | CouldNotOpenOutput string
  | CouldNotGetGlobalData string
  | RunErrno
  | CouldNotPinMap

text \<open>\<^verbatim>\<open>root_parse\<close>, case \<^verbatim>\<open>ARGP_KEY_FINI\<close>, lines 300 to 334: the four pinning paths under
  the sanitized root of the program. \<^verbatim>\<open>snprintf\<close> returns the length of the whole
  path; \<^verbatim>\<open>argp_error\<close> ends the process.\<close>

definition root_parse_pins :: "string \<Rightarrow> root_args \<Rightarrow> diag + root_args" where
  "root_parse_pins prog_root_sane args =
     (let pin_profc = prog_root_sane @ ''/'' @ ''profc'' in
      if length pin_profc \<ge> PATH_MAX then Inl (PathTooLong ''counters pinning path too long'')
      else
      let args = args\<lparr>pin := (pin args)(0 := pin_profc)\<rparr>;
          pin_profd = prog_root_sane @ ''/'' @ ''profd'' in
      if length pin_profd \<ge> PATH_MAX then Inl (PathTooLong ''data pinning path too long'')
      else
      let args = args\<lparr>pin := (pin args)(1 := pin_profd)\<rparr>;
          pin_profn = prog_root_sane @ ''/'' @ ''profn'' in
      if length pin_profn \<ge> PATH_MAX then Inl (PathTooLong ''names pinning path too long'')
      else
      let args = args\<lparr>pin := (pin args)(2 := pin_profn)\<rparr>;
          pin_covmap = prog_root_sane @ ''/'' @ ''covmap'' in
      if length pin_covmap \<ge> PATH_MAX
      then Inl (PathTooLong ''coverage mapping header path too long'')
      else Inr (args\<lparr>pin := (pin args)(3 := pin_covmap)\<rparr>))"

text \<open>Lines 336 to 360: the loop over the pinning paths, \<open>ps\<close> the indices still to
  visit. A pin that exists is removed under \<^verbatim>\<open>run\<close>; a pin that is missing is an error
  under \<^verbatim>\<open>gen\<close>.\<close>

fun check_pins :: "bool \<Rightarrow> bool \<Rightarrow> root_args \<Rightarrow> nat list \<Rightarrow> world \<Rightarrow> (diag + unit) \<times> world" where
  "check_pins is_run is_gen args [] w = (Inr (), w)"
| "check_pins is_run is_gen args (p # ps) w =
     (if access_ok (pin args p) w then
        (if is_run then
           (case unlink (pin args p) w of
              None \<Rightarrow> (Inl (CouldNotUnpin (pin args p)), w)
            | Some w' \<Rightarrow> check_pins is_run is_gen args ps w')
         else check_pins is_run is_gen args ps w)
      else
        (if is_gen then (Inl (CouldNotAccess (pin args p)), w)
         else check_pins is_run is_gen args ps w))"

definition root_parse_check :: "bool \<Rightarrow> bool \<Rightarrow> root_args \<Rightarrow> world \<Rightarrow> (diag + unit) \<times> world" where
  "root_parse_check is_run is_gen args w =
     check_pins is_run is_gen args [0..<NUM_PINNED_MAPS] w"

text \<open>\<^verbatim>\<open>strncmp(s, t, n) == 0\<close> on strings that end at their first NUL: the first \<open>n\<close>
  characters agree.\<close>

definition strncmp_eq :: "string \<Rightarrow> string \<Rightarrow> nat \<Rightarrow> bool" where
  "strncmp_eq s t n \<longleftrightarrow> take n s = take n t"

text \<open>\<^verbatim>\<open>get_pin_path\<close>: the value returned and the path left in \<^verbatim>\<open>*pin_path\<close>. A
  \<^verbatim>\<open>NULL\<close> suffix is \<open>None\<close>; \<^verbatim>\<open>strncmp\<close> reads through it.\<close>

definition get_pin_path :: "root_args \<Rightarrow> string option \<Rightarrow> string \<Rightarrow> fault + (int \<times> string)" where
  "get_pin_path args suffix pin_path =
     (case suffix of
        None \<Rightarrow> Inl NullDeref
      | Some s \<Rightarrow>
          if strncmp_eq s ''profc'' 5 then Inr (1, pin args 0)
          else if strncmp_eq s ''profd'' 5 then Inr (1, pin args 1)
          else if strncmp_eq s ''profn'' 5 then Inr (1, pin args 2)
          else if strncmp_eq s ''covmap'' 6 then Inr (1, pin args 3)
          else Inr (0, pin_path))"

text \<open>\<^verbatim>\<open>strtok(str, sep)\<close> with the single delimiter \<open>sep\<close>: the next token, \<open>None\<close> when
  only delimiters are left, and the rest of the string the next call
  \<^verbatim>\<open>strtok(NULL, sep)\<close> goes on from.\<close>

definition strtok :: "string \<Rightarrow> char \<Rightarrow> string option \<times> string" where
  "strtok str sep =
     (let s = dropWhile (\<lambda>c. c = sep) str in
      if s = [] then (None, [])
      else (Some (takeWhile (\<lambda>c. c \<noteq> sep) s), drop 1 (dropWhile (\<lambda>c. c \<noteq> sep) s)))"

text \<open>Lines 885 to 887 of \<^verbatim>\<open>run\<close>: the second token of the name of the map.\<close>

definition map_suffix :: "string \<Rightarrow> string option" where
  "map_suffix map_name = fst (strtok (snd (strtok map_name CHR ''.'')) CHR ''.'')"

subsection \<open>Descriptors, the heap and the calls into the kernel\<close>

definition fresh_fd :: "(int \<times> bpf_map) list \<Rightarrow> int" where
  "fresh_fd fds = fold max (map fst fds) 2 + 1"

text \<open>\<^verbatim>\<open>bpf_obj_get(path)\<close>: a new descriptor of the map pinned at the path, or a negative
  value.\<close>

definition bpf_obj_get :: "string \<Rightarrow> world \<Rightarrow> int \<times> world" where
  "bpf_obj_get path w =
     (case w_pins w path of
        None \<Rightarrow> (- 1, w)
      | Some m \<Rightarrow> (let fd = fresh_fd (w_fds w) in (fd, w\<lparr>w_fds := (fd, m) # w_fds w\<rparr>)))"

text \<open>\<^verbatim>\<open>bpf_obj_get_info_by_fd(fd, info, &size)\<close>: the value returned and what is in
  \<^verbatim>\<open>*info\<close> afterwards.\<close>

definition bpf_obj_get_info_by_fd :: "int \<Rightarrow> bpf_map_info \<Rightarrow> world \<Rightarrow> int \<times> bpf_map_info" where
  "bpf_obj_get_info_by_fd fd mi w =
     (case map_of (w_fds w) fd of None \<Rightarrow> (- 1, mi) | Some m \<Rightarrow> (0, info m))"

text \<open>\<^verbatim>\<open>get_map_info\<close>: \<^verbatim>\<open>memset\<close> clears the structure before the kernel fills it.\<close>

definition get_map_info :: "int \<Rightarrow> world \<Rightarrow> int \<times> bpf_map_info" where
  "get_map_info fd w = bpf_obj_get_info_by_fd fd zero_info w"

text \<open>\<^verbatim>\<open>bpf_map_get_next_key(fd, NULL, k)\<close>: the first key of the map.\<close>

definition bpf_map_get_next_key :: "int \<Rightarrow> world \<Rightarrow> int \<times> byte list" where
  "bpf_map_get_next_key fd w =
     (case map_of (w_fds w) fd of
        None \<Rightarrow> (- 1, [])
      | Some m \<Rightarrow> (case entries m of [] \<Rightarrow> (- 1, []) | e # _ \<Rightarrow> (0, fst e)))"

text \<open>\<^verbatim>\<open>bpf_map_lookup_elem(fd, k, v)\<close>: the value stored under the key. It fails on a
  descriptor that is not a map, on a map the kernel does not let user space read, and on
  a key the map does not hold.\<close>

definition bpf_map_lookup_elem :: "int \<Rightarrow> byte list \<Rightarrow> world \<Rightarrow> int \<times> byte list" where
  "bpf_map_lookup_elem fd k w =
     (case map_of (w_fds w) fd of
        None \<Rightarrow> (- 1, [])
      | Some m \<Rightarrow>
          if lookup_refused m then (- 1, [])
          else (case map_of (entries m) k of None \<Rightarrow> (- 1, []) | Some v \<Rightarrow> (0, v)))"

text \<open>\<^verbatim>\<open>close(fd)\<close>.\<close>

definition close :: "int \<Rightarrow> world \<Rightarrow> world" where
  "close fd w = w\<lparr>w_fds := filter (\<lambda>e. fst e \<noteq> fd) (w_fds w)\<rparr>"

text \<open>\<^verbatim>\<open>malloc(n)\<close>: the address of a new block, or 0 (\<^verbatim>\<open>NULL\<close>) when the allocator has
  fewer than \<open>n\<close> bytes left. \<^verbatim>\<open>free(p)\<close> gives the block back; \<^verbatim>\<open>free(NULL)\<close> does
  nothing.\<close>

definition fresh_block :: "(nat \<times> nat) list \<Rightarrow> nat" where
  "fresh_block h = Suc (fold max (map fst h) 0)"

definition malloc :: "nat \<Rightarrow> world \<Rightarrow> nat \<times> world" where
  "malloc n w =
     (if n \<le> w_avail w
      then (let p = fresh_block (w_heap w)
            in (p, w\<lparr>w_heap := (p, n) # w_heap w, w_avail := w_avail w - n\<rparr>))
      else (0, w))"

definition free :: "nat \<Rightarrow> world \<Rightarrow> world" where
  "free p w =
     (if p = 0 then w
      else case map_of (w_heap w) p of
             None \<Rightarrow> w
           | Some n \<Rightarrow> w\<lparr>w_heap := filter (\<lambda>b. fst b \<noteq> p) (w_heap w),
                          w_avail := w_avail w + n\<rparr>)"

text \<open>The bytes behind a pointer \<^verbatim>\<open>malloc\<close> returned: none behind \<^verbatim>\<open>NULL\<close>. The bytes of a
  new block are not determined by C; they are 0 here.\<close>

definition buffer :: "nat \<Rightarrow> nat \<Rightarrow> byte list option" where
  "buffer p n = (if p = 0 then None else Some (replicate n 0))"

text \<open>The kernel copies \<open>bs\<close> to the start of a buffer of \<open>n\<close> bytes.\<close>

definition copy_out :: "byte list \<Rightarrow> nat \<Rightarrow> fault + byte list" where
  "copy_out bs n = (if n < length bs then Inl OutOfBounds else Inr (bs @ replicate (n - length bs) 0))"

text \<open>\<^verbatim>\<open>memcpy(data, v, n)\<close> into the buffer \<open>data\<close> of the caller.\<close>

definition memcpy :: "byte list option \<Rightarrow> byte list \<Rightarrow> nat \<Rightarrow> fault + byte list option" where
  "memcpy data v n =
     (case data of
        None \<Rightarrow> (if n = 0 then Inr None else Inl NullDeref)
      | Some buf \<Rightarrow>
          if length buf < n \<or> length v < n then Inl OutOfBounds
          else Inr (Some (take n v @ drop n buf)))"

text \<open>\<^verbatim>\<open>get_global_data\<close>. The label \<^verbatim>\<open>error_out\<close> is the function \<open>error_out\<close>: every
  path goes through it. \<^verbatim>\<open>info\<close> is read before it is compared with \<^verbatim>\<open>NULL\<close>; it is a value
  here, so that comparison never holds.\<close>

definition error_out :: "int \<Rightarrow> nat \<Rightarrow> nat \<Rightarrow> int \<Rightarrow> world \<Rightarrow> world" where
  "error_out fd k v err w = close fd (free v (free k w))"

definition get_global_data ::
  "int \<Rightarrow> bpf_map_info \<Rightarrow> byte list option \<Rightarrow> world \<Rightarrow> fault + (int \<times> byte list option \<times> world)" where
  "get_global_data fd mi data w =
     (let (k, w) = malloc (unat (key_size mi)) w;
          (v, w) = malloc (unat (value_size mi)) w
      in
      if k = 0 \<or> v = 0 then Inr (- 1, data, error_out fd k v (- 1) w)
      else if max_entries mi > 1 then Inr (- 1, data, error_out fd k v (- 1) w)
      else
        (case bpf_map_get_next_key fd w of (err, key) \<Rightarrow>
         if err \<noteq> 0 then Inr (err, data, error_out fd k v err w)
         else
           (case copy_out key (unat (key_size mi)) of
              Inl f \<Rightarrow> Inl f
            | Inr kbuf \<Rightarrow>
                (case bpf_map_lookup_elem fd (take (length key) kbuf) w of (err, val) \<Rightarrow>
                 if err \<noteq> 0 then Inr (err, data, error_out fd k v err w)
                 else
                   (case copy_out val (unat (value_size mi)) of
                      Inl f \<Rightarrow> Inl f
                    | Inr vbuf \<Rightarrow>
                        (case memcpy data vbuf (unat (value_size mi)) of
                           Inl f \<Rightarrow> Inl f
                         | Inr data' \<Rightarrow> Inr (err, data', error_out fd k v err w)))))))"

subsection \<open>Writing the profraw file\<close>

text \<open>How a command ends: \<^verbatim>\<open>return 0\<close>, \<^verbatim>\<open>exit(status)\<close> after the traced program
  ended, \<^verbatim>\<open>log_fata\<close> or \<^verbatim>\<open>argp_error\<close> (a diagnostic, then \<^verbatim>\<open>exit\<close> with a failure
  status), or undefined behaviour.\<close>

datatype result = Done | Exited u32 | Fatal diag | Crash fault

text \<open>\<^verbatim>\<open>fopen(path, "wb")\<close>: the file is created or emptied; \<open>None\<close> is \<^verbatim>\<open>NULL\<close>.\<close>

definition fopen_wb :: "string \<Rightarrow> world \<Rightarrow> world option" where
  "fopen_wb path w =
     (if w_denied w path then None else Some (w\<lparr>w_files := (w_files w)(path \<mapsto> [])\<rparr>))"

text \<open>\<^verbatim>\<open>fwrite\<close> on the stream of the file at \<open>path\<close>: the bytes are appended. The value
  \<^verbatim>\<open>fwrite\<close> returns is never read by \<^verbatim>\<open>gen\<close>.\<close>

definition fwrite :: "string \<Rightarrow> byte list \<Rightarrow> world \<Rightarrow> world" where
  "fwrite path bs w =
     (case w_files w path of
        None \<Rightarrow> w
      | Some old \<Rightarrow> w\<lparr>w_files := (w_files w)(path \<mapsto> old @ bs)\<rparr>)"

definition magic :: "byte list" where
  "magic = [0x81, 0x72, 0x66, 0x6F, 0x72, 0x70, 0x6C, 0xFF]"

text \<open>The bytes of a \<^verbatim>\<open>struct bpf_map_info\<close> from its start to the name; \<^verbatim>\<open>value_size\<close>
  is at offset 12.\<close>

definition info_bytes :: "bpf_map_info \<Rightarrow> byte list" where
  "info_bytes mi =
     le32 (map_type mi) @ le32 (map_id mi) @ le32 (key_size mi) @ le32 (value_size mi) @
     le32 (max_entries mi) @ le32 (map_flags mi)"

definition value_size_offset :: nat where
  "value_size_offset = 12"

text \<open>Lines 911 to 930 of \<^verbatim>\<open>gen\<close> do the same for each pin:
  \<^verbatim>\<open>if (get_map_info(bpf_obj_get(path), &info)) { log_fata(...) }\<close>. The descriptor
  stays open.\<close>

definition gen_map_info :: "string \<Rightarrow> world \<Rightarrow> (diag + bpf_map_info) \<times> world" where
  "gen_map_info path w =
     (let (fd, w) = bpf_obj_get path w;
          (err, mi) = get_map_info fd w
      in if err \<noteq> 0 then (Inl (CouldNotGetInfo path), w) else (Inr mi, w))"

text \<open>Lines 945 to 949, 981 to 985 and 990 to 994 do the same for three of the maps:
  \<^verbatim>\<open>data = malloc(info.value_size);\<close>
  \<^verbatim>\<open>if (get_global_data(bpf_obj_get(path), &info, data)) { log_fata(...) }\<close>.
  The result of \<^verbatim>\<open>malloc\<close> is not checked. On success: the pointer and the bytes behind
  it.\<close>

definition gen_global_data ::
  "string \<Rightarrow> bpf_map_info \<Rightarrow> world \<Rightarrow> (result + nat \<times> byte list option) \<times> world" where
  "gen_global_data path mi w =
     (let (ptr, w) = malloc (unat (value_size mi)) w;
          (fd, w) = bpf_obj_get path w
      in case get_global_data fd mi (buffer ptr (unat (value_size mi))) w of
           Inl f \<Rightarrow> (Inl (Crash f), w)
         | Inr (err, data, w) \<Rightarrow>
             if err \<noteq> 0 then (Inl (Fatal (CouldNotGetGlobalData path)), w)
             else (Inr (ptr, data), w))"

text \<open>\<^verbatim>\<open>fwrite(data, n, 1, outfp)\<close> of a buffer of \<open>n\<close> bytes.\<close>

definition fwrite_buffer :: "string \<Rightarrow> byte list option \<Rightarrow> nat \<Rightarrow> world \<Rightarrow> world" where
  "fwrite_buffer path data n w =
     (case data of None \<Rightarrow> w | Some bs \<Rightarrow> fwrite path (take n bs) w)"

text \<open>\<^verbatim>\<open>gen\<close>. Only the first of the three buffers is freed.
  \<^verbatim>\<open>fwrite(&profn_info.value_size, 1, sizeof(profn_info.value_size) * 2, outfp)\<close>
  writes the 8 bytes of the structure that start at \<^verbatim>\<open>value_size\<close>.\<close>

definition gen :: "root_args \<Rightarrow> world \<Rightarrow> result \<times> world" where
  "gen args w =
     (case gen_map_info (pin args 0) w of
        (Inl d, w) \<Rightarrow> (Fatal d, w)
      | (Inr profc_info, w) \<Rightarrow>
     (case gen_map_info (pin args 1) w of
        (Inl d, w) \<Rightarrow> (Fatal d, w)
      | (Inr profd_info, w) \<Rightarrow>
     (case gen_map_info (pin args 2) w of
        (Inl d, w) \<Rightarrow> (Fatal d, w)
      | (Inr profn_info, w) \<Rightarrow>
     (case gen_map_info (pin args 3) w of
        (Inl d, w) \<Rightarrow> (Fatal d, w)
      | (Inr covmap_info, w) \<Rightarrow>
     (case fopen_wb (output_path args) w of
        None \<Rightarrow> (Fatal (CouldNotOpenOutput (output_path args)), w)
      | Some w \<Rightarrow>
      let outfp = output_path args;
          w = fwrite outfp magic w
      in
     (case gen_global_data (pin args 3) covmap_info w of
        (Inl r, w) \<Rightarrow> (r, w)
      | (Inr (covmap_ptr, covmap_data), w) \<Rightarrow>
     (case covmap_data of
        None \<Rightarrow> (Crash NullDeref, w)
      | Some covmap_bytes \<Rightarrow>
      if length covmap_bytes < 12 + 4 then (Crash OutOfBounds, w) else
      let version = (ucast (le_word (take 4 (drop 12 covmap_bytes)) :: u32) :: u64);
          version = version + 1;
          w = fwrite outfp (le64 version) w;
          w = free covmap_ptr w;
          func_num = (ucast (value_size profd_info div 48) :: u64);
          w = fwrite outfp (le64 func_num) w;
          pad_bef = (0 :: u64);
          w = fwrite outfp (le64 pad_bef) w;
          counters_num = (ucast (value_size profc_info div 8) :: u64);
          w = fwrite outfp (le64 counters_num) w;
          pad_aft = (0 :: u64);
          w = fwrite outfp (le64 pad_aft) w;
          w = fwrite outfp (take (4 * 2) (drop value_size_offset (info_bytes profn_info))) w;
          counters_delta = (0 :: u64);
          w = fwrite outfp (le64 counters_delta) w;
          names_delta = (0 :: u64);
          w = fwrite outfp (le64 names_delta) w;
          ipvk_last = (1 :: u64);
          w = fwrite outfp (le64 ipvk_last) w
      in
     (case gen_global_data (pin args 1) profd_info w of
        (Inl r, w) \<Rightarrow> (r, w)
      | (Inr (profd_ptr, profd_data), w) \<Rightarrow>
      let w = fwrite_buffer outfp profd_data (unat (value_size profd_info)) w in
     (case gen_global_data (pin args 0) profc_info w of
        (Inl r, w) \<Rightarrow> (r, w)
      | (Inr (profc_ptr, profc_data), w) \<Rightarrow>
      let w = fwrite_buffer outfp profc_data (unat (value_size profc_info)) w
      in (Done, w))))))))))"

text \<open>\<^verbatim>\<open>root\<close> with the command \<^verbatim>\<open>gen\<close>: the last step of \<^verbatim>\<open>argp_parse\<close> is the case
  \<^verbatim>\<open>ARGP_KEY_FINI\<close> of \<^verbatim>\<open>root_parse\<close>; the command runs after it, unless \<^verbatim>\<open>argp_error\<close>
  ended the process. The pointers \<^verbatim>\<open>args->pin[i]\<close> are set to arrays local to
  \<^verbatim>\<open>root_parse\<close> (\<^verbatim>\<open>pin_profc\<close> and the others), which are dead when \<^verbatim>\<open>root\<close> calls the
  command: C does not determine what the command reads through them. It is the input
  \<open>dead_pin\<close>, the strings found there at that time.\<close>

definition root_gen :: "root_args \<Rightarrow> (nat \<Rightarrow> string) \<Rightarrow> world \<Rightarrow> result \<times> world" where
  "root_gen args dead_pin w =
     (case root_parse_check False True args w of
        (Inl d, w') \<Rightarrow> (Fatal d, w')
      | (Inr _, w') \<Rightarrow> gen (args\<lparr>pin := dead_pin\<rparr>) w')"

subsection \<open>Tracing the program and pinning its maps\<close>

text \<open>The registers of \<^verbatim>\<open>struct user_regs_struct\<close> that \<^verbatim>\<open>run\<close> reads outside its log
  lines.\<close>

record user_regs =
  orig_rax :: u64
  rax :: u64
  rdi :: u64

text \<open>Modelled from the spec: the number of the "create a kernel map" system call
  (\<^verbatim>\<open>SYS_bpf\<close> of \<^verbatim>\<open>syscall.h\<close>, 321 on x86-64) and the "create map" sub-command
  (\<^verbatim>\<open>BPF_MAP_CREATE\<close> of \<^verbatim>\<open>linux/bpf.h\<close>, the first of its enumeration); \<^verbatim>\<open>ESRCH\<close> of
  \<^verbatim>\<open>errno.h\<close>.\<close>

definition SYS_bpf :: u32 where
  "SYS_bpf = 321"

definition BPF_MAP_CREATE :: u32 where
  "BPF_MAP_CREATE = 0"

definition ESRCH :: int where
  "ESRCH = 3"

text \<open>What the operating system answers during one iteration of the loop of \<^verbatim>\<open>run\<close>: the
  values the two \<^verbatim>\<open>ptrace(PTRACE_SYSCALL)\<close> and \<^verbatim>\<open>waitpid\<close> calls return, the registers at
  the entry of the system call (\<open>None\<close> when \<^verbatim>\<open>PTRACE_GETREGS\<close> returns -1), the registers
  at its exit (or \<^verbatim>\<open>errno\<close>), the values \<^verbatim>\<open>pidfd_open\<close> and \<^verbatim>\<open>pidfd_getfd\<close> return, and the
  map behind the descriptor of the traced process, if it is one.\<close>

record stop =
  ptrace_entry :: int
  waitpid_entry :: int
  getregs_entry :: "user_regs option"
  ptrace_exit :: int
  waitpid_exit :: int
  getregs_exit :: "int + user_regs"
  pidfd_open_ret :: int
  pidfd_getfd_ret :: int
  remote_obj :: "bpf_map option"

text \<open>The calls of the tracer that take a descriptor out of the traced process and pin
  it, as they are made.\<close>

datatype call =
    Pidfd_open
  | Pidfd_getfd int u64
  | Obj_get_info int
  | Obj_pin int string

text \<open>The state of the loop: the variable \<^verbatim>\<open>is_map\<close>, declared before the \<^verbatim>\<open>for\<close>, the
  calls made so far and the world.\<close>

record tracer =
  is_map :: int
  calls :: "call list"
  world_of :: world

text \<open>\<^verbatim>\<open>syscall(SYS_pidfd_getfd, pidfd, result, 0)\<close>: on success the new descriptor is in
  the table of the tracer.\<close>

definition pidfd_getfd :: "stop \<Rightarrow> world \<Rightarrow> int \<times> world" where
  "pidfd_getfd e w =
     (let fd = pidfd_getfd_ret e in
      if fd < 0 then (fd, w)
      else (fd, case remote_obj e of
                  None \<Rightarrow> w
                | Some m \<Rightarrow> w\<lparr>w_fds := (fd, m) # w_fds w\<rparr>))"

text \<open>\<^verbatim>\<open>bpf_obj_pin(fd, path)\<close>: the kernel refuses a path that is taken.\<close>

definition bpf_obj_pin :: "int \<Rightarrow> string \<Rightarrow> world \<Rightarrow> int \<times> world" where
  "bpf_obj_pin fd path w =
     (case map_of (w_fds w) fd of
        None \<Rightarrow> (- 1, w)
      | Some m \<Rightarrow>
          if w_pins w path = None \<and> \<not> w_denied w path
          then (0, w\<lparr>w_pins := (w_pins w)(path \<mapsto> m)\<rparr>)
          else (- 1, w))"

text \<open>One iteration of the \<^verbatim>\<open>for (;;)\<close> of \<^verbatim>\<open>run\<close>, lines 800 to 901. The first component
  is \<open>None\<close> when the loop goes on, and how the process ends otherwise.\<close>

definition run_iter :: "root_args \<Rightarrow> stop \<Rightarrow> tracer \<Rightarrow> result option \<times> tracer" where
  "run_iter args e st =
     (if ptrace_entry e = - 1 then (Some (Fatal RunErrno), st) else
      if waitpid_entry e = - 1 then (Some (Fatal RunErrno), st) else
      case getregs_entry e of
        None \<Rightarrow> (Some (Fatal RunErrno), st)
      | Some regs \<Rightarrow>
      let sysc = (ucast (orig_rax regs) :: u32);
          comm = (ucast (rdi regs) :: u32);
          st = (if sysc = SYS_bpf \<and> comm = BPF_MAP_CREATE then st\<lparr>is_map := 1\<rparr> else st)
      in
      if ptrace_exit e = - 1 then (Some (Fatal RunErrno), st) else
      if waitpid_exit e = - 1 then (Some (Fatal RunErrno), st) else
     (case getregs_exit e of
        Inl errno \<Rightarrow>
          if errno = ESRCH then (Some (Exited (ucast (rdi regs))), st)
          else (Some (Fatal RunErrno), st)
      | Inr regs \<Rightarrow>
      let result = rax regs in
      if is_map st \<noteq> 0 \<and> result \<noteq> 0 then
        let pidfd = pidfd_open_ret e;
            st = st\<lparr>calls := calls st @ [Pidfd_open]\<rparr>
        in
        if pidfd < 0 then (None, st) else
        let (curfd, w) = pidfd_getfd e (world_of st);
            st = st\<lparr>calls := calls st @ [Pidfd_getfd pidfd result], world_of := w\<rparr>
        in
        if curfd < 0 then (None, st) else
        let (err, map_info) = bpf_obj_get_info_by_fd curfd zero_info (world_of st);
            st = st\<lparr>calls := calls st @ [Obj_get_info curfd]\<rparr>
        in
        if err = 0 \<and> length (name map_info) > 0 then
          (let suffix = map_suffix (name map_info);
               pin_path = []
           in
           case get_pin_path args suffix pin_path of
             Inl f \<Rightarrow> (Some (Crash f), st)
           | Inr (found, pin_path) \<Rightarrow>
               let (err, st) =
                     (if found \<noteq> 0 then
                        (let (err, w) = bpf_obj_pin curfd pin_path (world_of st)
                         in (err, st\<lparr>calls := calls st @ [Obj_pin curfd pin_path],
                                      world_of := w\<rparr>))
                      else (err, st))
               in
               if err \<noteq> 0 then (Some (Fatal CouldNotPinMap), st) else (None, st))
        else (None, st)
      else (None, st)))"

text \<open>The loop over the stops of the traced program, one element of the list for each
  iteration. When the list ends the tracer is still in the loop.\<close>

fun run_loop :: "root_args \<Rightarrow> stop list \<Rightarrow> tracer \<Rightarrow> result option \<times> tracer" where
  "run_loop args [] st = (None, st)"
| "run_loop args (e # es) st =
     (case run_iter args e st of
        (None, st') \<Rightarrow> run_loop args es st'
      | (Some r, st') \<Rightarrow> (Some r, st'))"

text \<open>\<^verbatim>\<open>run\<close> from line 799 on, after the child has been forked and has stopped.\<close>

definition run :: "root_args \<Rightarrow> stop list \<Rightarrow> world \<Rightarrow> result option \<times> tracer" where
  "run args es w = run_loop args es \<lparr>is_map = 0, calls = [], world_of = w\<rparr>"

subsection \<open>The vocabulary of the statements\<close>

text \<open>The four suffixes the pin registry knows, in the order of their roles: counters,
  data, names, coverage mapping header.\<close>

definition tokens :: "string list" where
  "tokens = [''profc'', ''profd'', ''profn'', ''covmap'']"

text \<open>The ten fields of the header \<^verbatim>\<open>gen\<close> writes, from the value \<open>vh\<close> of the coverage
  mapping header and the descriptions of the data, counters and names maps.\<close>

definition profraw_header ::
  "byte list \<Rightarrow> bpf_map_info \<Rightarrow> bpf_map_info \<Rightarrow> bpf_map_info \<Rightarrow> byte list" where
  "profraw_header vh profd_info profc_info profn_info =
     magic @
     le64 (ucast (le_word (take 4 (drop 12 vh)) :: u32) + 1) @
     le64 (ucast (value_size profd_info div 48)) @
     le64 0 @
     le64 (ucast (value_size profc_info div 8)) @
     le64 0 @
     (le32 (value_size profn_info) @ le32 (max_entries profn_info)) @
     le64 0 @
     le64 0 @
     le64 1"

subsection \<open>A program and its maps\<close>

text \<open>The program \<^verbatim>\<open>p\<close> under the mount point \<^verbatim>\<open>/b\<close>: its arguments before and after
  \<^verbatim>\<open>root_parse\<close> has set the pinning paths, its four coverage maps (arrays of one entry),
  two maps that are not coverage maps, and a coverage mapping header of two entries.\<close>

definition ex_args0 :: root_args where
  "ex_args0 = \<lparr>output_path = ''p.profraw'', prog_root = ''/b/cov/p'', pin = (\<lambda>_. []),
     verbosity = 0, program = [''p'']\<rparr>"

definition ex_args :: root_args where
  "ex_args = ex_args0\<lparr>pin := (\<lambda>_. [])(0 := ''/b/cov/p/profc'', 1 := ''/b/cov/p/profd'',
     2 := ''/b/cov/p/profn'', 3 := ''/b/cov/p/covmap'')\<rparr>"

definition ex_key :: "byte list" where
  "ex_key = [0, 0, 0, 0]"

definition ex_profc :: bpf_map where
  "ex_profc = \<lparr>info = \<lparr>map_type = 2, map_id = 1, key_size = 4, value_size = 8, max_entries = 1,
       map_flags = 0, name = ''p.profc''\<rparr>,
     entries = [(ex_key, [5, 0, 0, 0, 0, 0, 0, 0])],
     lookup_refused = False\<rparr>"

definition ex_profd :: bpf_map where
  "ex_profd = \<lparr>info = \<lparr>map_type = 2, map_id = 2, key_size = 4, value_size = 48, max_entries = 1,
       map_flags = 0, name = ''p.profd''\<rparr>,
     entries = [(ex_key, replicate 48 7)],
     lookup_refused = False\<rparr>"

definition ex_profn :: bpf_map where
  "ex_profn = \<lparr>info = \<lparr>map_type = 2, map_id = 3, key_size = 4, value_size = 16, max_entries = 1,
       map_flags = 0, name = ''p.profn''\<rparr>,
     entries = [(ex_key, replicate 16 9)],
     lookup_refused = False\<rparr>"

definition ex_covmap :: bpf_map where
  "ex_covmap = \<lparr>info = \<lparr>map_type = 2, map_id = 4, key_size = 4, value_size = 16, max_entries = 1,
       map_flags = 0, name = ''p.covmap''\<rparr>,
     entries = [(ex_key, [0, 0, 0, 0, 0, 0, 0, 0, 0, 0, 0, 0, 3, 0, 0, 0])],
     lookup_refused = False\<rparr>"

definition ex_covmap2 :: bpf_map where
  "ex_covmap2 = \<lparr>info = \<lparr>map_type = 2, map_id = 4, key_size = 4, value_size = 16, max_entries = 2,
       map_flags = 0, name = ''p.covmap''\<rparr>,
     entries = [(ex_key, replicate 16 0), ([1, 0, 0, 0], replicate 16 0)],
     lookup_refused = False\<rparr>"

definition ex_rodata :: bpf_map where
  "ex_rodata = \<lparr>info = \<lparr>map_type = 2, map_id = 5, key_size = 4, value_size = 8, max_entries = 1,
       map_flags = 0, name = ''p.rodata''\<rparr>,
     entries = [(ex_key, [0, 0, 0, 0, 0, 0, 0, 0])],
     lookup_refused = False\<rparr>"

definition ex_events :: bpf_map where
  "ex_events = \<lparr>info = \<lparr>map_type = 4, map_id = 6, key_size = 4, value_size = 4, max_entries = 8,
       map_flags = 0, name = ''events''\<rparr>,
     entries = [],
     lookup_refused = False\<rparr>"

text \<open>Worlds: nothing pinned; the four maps pinned; the same with the header of two
  entries; nothing pinned and the header map open as descriptor 3; the same with a map
  of the same content that the kernel does not let user space read.\<close>

definition ex_empty :: world where
  "ex_empty = \<lparr>w_pins = Map.empty, w_denied = (\<lambda>_. False), w_fds = [], w_heap = [],
     w_avail = 4096, w_files = Map.empty\<rparr>"

definition ex_pinned :: world where
  "ex_pinned = ex_empty\<lparr>w_pins := [''/b/cov/p/profc'' \<mapsto> ex_profc, ''/b/cov/p/profd'' \<mapsto> ex_profd,
     ''/b/cov/p/profn'' \<mapsto> ex_profn, ''/b/cov/p/covmap'' \<mapsto> ex_covmap]\<rparr>"

definition ex_pinned2 :: world where
  "ex_pinned2 = ex_pinned\<lparr>w_pins := (w_pins ex_pinned)(''/b/cov/p/covmap'' \<mapsto> ex_covmap2)\<rparr>"

definition ex_opened :: world where
  "ex_opened = ex_empty\<lparr>w_fds := [(3, ex_covmap)]\<rparr>"

definition ex_refused :: world where
  "ex_refused = ex_empty\<lparr>w_fds := [(3, ex_covmap\<lparr>lookup_refused := True\<rparr>)]\<rparr>"

text \<open>Stops of the traced program: \<^verbatim>\<open>bpf(BPF_MAP_CREATE, ...)\<close> returning descriptor 3,
  the counters map; \<^verbatim>\<open>write(1, ...)\<close> returning 3; \<^verbatim>\<open>exit_group(7)\<close>, after which the
  registers cannot be read any more.\<close>

definition ex_create :: stop where
  "ex_create = \<lparr>ptrace_entry = 0, waitpid_entry = 100,
     getregs_entry = Some \<lparr>orig_rax = 321, rax = - 38, rdi = 0\<rparr>,
     ptrace_exit = 0, waitpid_exit = 100,
     getregs_exit = Inr \<lparr>orig_rax = 321, rax = 3, rdi = 0\<rparr>,
     pidfd_open_ret = 4, pidfd_getfd_ret = 5, remote_obj = Some ex_profc\<rparr>"

definition ex_create_of :: "bpf_map \<Rightarrow> stop" where
  "ex_create_of m = ex_create\<lparr>remote_obj := Some m\<rparr>"

definition ex_write :: stop where
  "ex_write = \<lparr>ptrace_entry = 0, waitpid_entry = 100,
     getregs_entry = Some \<lparr>orig_rax = 1, rax = - 38, rdi = 1\<rparr>,
     ptrace_exit = 0, waitpid_exit = 100,
     getregs_exit = Inr \<lparr>orig_rax = 1, rax = 3, rdi = 1\<rparr>,
     pidfd_open_ret = 6, pidfd_getfd_ret = 7, remote_obj = Some ex_profc\<rparr>"

definition ex_exit :: stop where
  "ex_exit = \<lparr>ptrace_entry = 0, waitpid_entry = 100,
     getregs_entry = Some \<lparr>orig_rax = 231, rax = - 38, rdi = 7\<rparr>,
     ptrace_exit = 0, waitpid_exit = 100,
     getregs_exit = Inl 3,
     pidfd_open_ret = - 1, pidfd_getfd_ret = - 1, remote_obj = None\<rparr>"

definition st0 :: tracer where
  "st0 = \<lparr>is_map = 0, calls = [], world_of = ex_empty\<rparr>"

section \<open>The pin registry\<close>

lemma ex_pins:
  "pin ex_args 0 = ''/b/cov/p/profc''" "pin ex_args 1 = ''/b/cov/p/profd''"
  "pin ex_args (Suc 0) = ''/b/cov/p/profd''"
  "pin ex_args 2 = ''/b/cov/p/profn''" "pin ex_args 3 = ''/b/cov/p/covmap''"
  by (simp_all add: ex_args_def)

lemma ex_root_parse_pins: "root_parse_pins ''/b/cov/p'' ex_args0 = Inr ex_args"
  by (simp add: root_parse_pins_def ex_args0_def ex_args_def PATH_MAX_def Let_def)

lemma strncmp_eq_iff: "length t = n \<Longrightarrow> strncmp_eq s t n \<longleftrightarrow> (\<exists>r. s = t @ r)"
  unfolding strncmp_eq_def
  by (auto) (metis append_take_drop_id)

lemma get_pin_path_none:
  assumes "\<forall>t \<in> set tokens. \<not> (\<exists>r. s = t @ r)"
  shows "get_pin_path args (Some s) p = Inr (0, p)"
proof -
  have "\<not> strncmp_eq s ''profc'' 5" "\<not> strncmp_eq s ''profd'' 5"
       "\<not> strncmp_eq s ''profn'' 5" "\<not> strncmp_eq s ''covmap'' 6"
    using assms by (simp_all add: strncmp_eq_iff tokens_def)
  then show ?thesis by (simp add: get_pin_path_def)
qed

lemma root_parse_pins_paths:
  assumes "root_parse_pins root args0 = Inr args"
  shows "pin args 0 = root @ ''/profc''" "pin args 1 = root @ ''/profd''"
    "pin args 2 = root @ ''/profn''" "pin args 3 = root @ ''/covmap''"
  using assms by (auto simp: root_parse_pins_def Let_def split: if_splits)

text \<open>
  Claim C9. \<^verbatim>\<open>get_pin_path\<close> compares only as many characters as the token has: a
  suffix that begins with \<^verbatim>\<open>profc\<close>, \<^verbatim>\<open>profd\<close>, \<^verbatim>\<open>profn\<close> or \<^verbatim>\<open>covmap\<close>, whatever follows
  (\<^verbatim>\<open>profcounters\<close> for one), resolves to the path of that token and the function returns
  1.
\<close>

theorem get_pin_path_prefix:
  "get_pin_path args (Some (''profc'' @ rest)) p = Inr (1, pin args 0) \<and>
   get_pin_path args (Some (''profd'' @ rest)) p = Inr (1, pin args 1) \<and>
   get_pin_path args (Some (''profn'' @ rest)) p = Inr (1, pin args 2) \<and>
   get_pin_path args (Some (''covmap'' @ rest)) p = Inr (1, pin args 3) \<and>
   get_pin_path args (Some ''profcounters'') p = Inr (1, pin args 0)"
  by (simp add: get_pin_path_def strncmp_eq_def)

section \<open>The pins before a command runs\<close>

lemma unlink_Some:
  "unlink path w = Some w' \<longleftrightarrow>
     w_pins w path \<noteq> None \<and> \<not> w_denied w path \<and>
     w' = w\<lparr>w_pins := (w_pins w)(path := None)\<rparr>"
  by (auto simp: unlink_def)

lemma unlink_None:
  "unlink path w = None \<longleftrightarrow> w_pins w path = None \<or> w_denied w path"
  by (auto simp: unlink_def)

lemma check_pins_run_absent:
  "\<forall>p \<in> set ps. w_pins w (pin args p) = None \<Longrightarrow>
     check_pins True False args ps w = (Inr (), w)"
  by (induction ps) (simp_all add: access_ok_def)

lemma check_pins_run_ok:
  "check_pins True False args ps w = (Inr u, w') \<Longrightarrow>
     w' = w\<lparr>w_pins := (\<lambda>q. if q \<in> pin args ` set ps then None else w_pins w q)\<rparr>"
proof (induction ps arbitrary: w)
  case Nil
  then show ?case by simp
next
  case (Cons p ps)
  show ?case
  proof (cases "access_ok (pin args p) w")
    case True
    then obtain w1 where u: "unlink (pin args p) w = Some w1"
      and r: "check_pins True False args ps w1 = (Inr u, w')"
      using Cons.prems by (auto split: option.splits)
    have w1: "w1 = w\<lparr>w_pins := (w_pins w)(pin args p := None)\<rparr>"
      using u by (simp add: unlink_Some)
    show ?thesis
      using Cons.IH [OF r] by (auto simp: w1 fun_eq_iff)
  next
    case False
    then have r: "check_pins True False args ps w = (Inr u, w')"
      using Cons.prems by simp
    from False have "w_pins w (pin args p) = None" by (simp add: access_ok_def)
    then show ?thesis
      using Cons.IH [OF r] by (auto simp: fun_eq_iff)
  qed
qed

lemma check_pins_run_fail:
  "check_pins True False args ps w = (Inl d, w') \<Longrightarrow>
     \<exists>p \<in> set ps. d = CouldNotUnpin (pin args p) \<and> w_pins w' (pin args p) \<noteq> None
        \<and> w_denied w' (pin args p)"
proof (induction ps arbitrary: w)
  case Nil
  then show ?case by simp
next
  case (Cons p ps)
  then show ?case
    by (fastforce simp: access_ok_def unlink_None split: if_splits option.splits)
qed

lemma check_pins_run_denied:
  "\<exists>p \<in> set ps. w_pins w (pin args p) \<noteq> None \<and> w_denied w (pin args p) \<Longrightarrow>
     \<exists>d w'. check_pins True False args ps w = (Inl d, w')"
proof (induction ps arbitrary: w)
  case Nil
  then show ?case by simp
next
  case (Cons p ps)
  show ?case
  proof (cases "unlink (pin args p) w")
    case None
    show ?thesis
    proof (cases "access_ok (pin args p) w")
      case True
      then show ?thesis using None by simp
    next
      case False
      then have "\<exists>q \<in> set ps. w_pins w (pin args q) \<noteq> None \<and> w_denied w (pin args q)"
        using Cons.prems by (auto simp: access_ok_def)
      from Cons.IH [OF this] show ?thesis using False by simp
    qed
  next
    case (Some w1)
    then have w1: "w1 = w\<lparr>w_pins := (w_pins w)(pin args p := None)\<rparr>"
      and nd: "\<not> w_denied w (pin args p)" and pr: "w_pins w (pin args p) \<noteq> None"
      by (simp_all add: unlink_Some)
    from Cons.prems nd obtain q where "q \<in> set ps" "w_pins w (pin args q) \<noteq> None"
      "w_denied w (pin args q)" by auto
    moreover then have "pin args q \<noteq> pin args p" using nd by auto
    ultimately have "\<exists>q \<in> set ps. w_pins w1 (pin args q) \<noteq> None \<and> w_denied w1 (pin args q)"
      by (auto simp: w1)
    from Cons.IH [OF this] show ?thesis
      using Some pr by (simp add: access_ok_def)
  qed
qed

lemma check_pins_gen_present:
  "\<forall>p \<in> set ps. w_pins w (pin args p) \<noteq> None \<Longrightarrow>
     check_pins False True args ps w = (Inr (), w)"
  by (induction ps) (simp_all add: access_ok_def)

lemma check_pins_gen_missing:
  "\<exists>p \<in> set ps. w_pins w (pin args p) = None \<Longrightarrow>
     \<exists>p \<in> set ps. w_pins w (pin args p) = None \<and>
        check_pins False True args ps w = (Inl (CouldNotAccess (pin args p)), w)"
  by (induction ps) (auto simp: access_ok_def)

text \<open>
  Claim C8. Under \<^verbatim>\<open>run\<close>, when the check of the four pinning paths ends well, none of
  them holds a pin any more, and the check done again on the world it leaves ends well
  and changes nothing; when it fails, it fails with \<^verbatim>\<open>could not unpin map\<close> on a path
  that holds a pin the file system refuses to remove; a pin of that kind makes it fail;
  with no pin at all it ends well and changes nothing. Under \<^verbatim>\<open>gen\<close>, a pinning path
  without a pin ends the tool with \<^verbatim>\<open>could not access map\<close> before \<^verbatim>\<open>gen\<close> runs, the world
  unchanged, whatever the dead path arrays hold.
\<close>

theorem root_parse_check_pins:
  "(\<forall>u w'. root_parse_check True False args w = (Inr u, w') \<longrightarrow>
      (\<forall>p < 4. w_pins w' (pin args p) = None) \<and>
      root_parse_check True False args w' = (Inr (), w')) \<and>
   (\<forall>d w'. root_parse_check True False args w = (Inl d, w') \<longrightarrow>
      (\<exists>p < 4. d = CouldNotUnpin (pin args p) \<and> w_pins w' (pin args p) \<noteq> None \<and>
         w_denied w' (pin args p))) \<and>
   ((\<exists>p < 4. w_pins w (pin args p) \<noteq> None \<and> w_denied w (pin args p)) \<longrightarrow>
      (\<exists>d w'. root_parse_check True False args w = (Inl d, w'))) \<and>
   ((\<forall>p < 4. w_pins w (pin args p) = None) \<longrightarrow>
      root_parse_check True False args w = (Inr (), w)) \<and>
   ((\<exists>p < 4. w_pins w (pin args p) = None) \<longrightarrow>
      (\<exists>p < 4. root_gen args dead_pin w = (Fatal (CouldNotAccess (pin args p)), w)))"
proof -
  have run_ok: "(\<forall>p < 4. w_pins w' (pin args p) = None) \<and>
      root_parse_check True False args w' = (Inr (), w')"
    if ok: "root_parse_check True False args w = (Inr u, w')" for u w'
  proof -
    from ok have "w' = w\<lparr>w_pins := (\<lambda>q. if q \<in> pin args ` set [0..<NUM_PINNED_MAPS]
        then None else w_pins w q)\<rparr>"
      unfolding root_parse_check_def by (rule check_pins_run_ok)
    then have absent: "\<forall>p < 4. w_pins w' (pin args p) = None"
      by (auto simp: NUM_PINNED_MAPS_def)
    then have "root_parse_check True False args w' = (Inr (), w')"
      unfolding root_parse_check_def
      by (intro check_pins_run_absent) (auto simp: NUM_PINNED_MAPS_def)
    with absent show ?thesis by simp
  qed
  have run_fail: "\<exists>p < 4. d = CouldNotUnpin (pin args p) \<and> w_pins w' (pin args p) \<noteq> None \<and>
         w_denied w' (pin args p)"
    if "root_parse_check True False args w = (Inl d, w')" for d w'
    using that unfolding root_parse_check_def
    by (drule_tac check_pins_run_fail) (auto simp: NUM_PINNED_MAPS_def)
  have run_denied: "\<exists>d w'. root_parse_check True False args w = (Inl d, w')"
    if "\<exists>p < 4. w_pins w (pin args p) \<noteq> None \<and> w_denied w (pin args p)"
    using that unfolding root_parse_check_def
    by (intro check_pins_run_denied) (auto simp: NUM_PINNED_MAPS_def)
  have run_absent: "root_parse_check True False args w = (Inr (), w)"
    if "\<forall>p < 4. w_pins w (pin args p) = None"
    using that unfolding root_parse_check_def
    by (intro check_pins_run_absent) (auto simp: NUM_PINNED_MAPS_def)
  have gen_missing: "\<exists>p < 4. root_gen args dead_pin w = (Fatal (CouldNotAccess (pin args p)), w)"
    if "\<exists>p < 4. w_pins w (pin args p) = None"
  proof -
    from that have "\<exists>p \<in> set [0..<NUM_PINNED_MAPS]. w_pins w (pin args p) = None"
      by (auto simp: NUM_PINNED_MAPS_def)
    from check_pins_gen_missing [OF this] show ?thesis
      by (auto simp: root_gen_def root_parse_check_def NUM_PINNED_MAPS_def)
  qed
  show ?thesis
    using run_ok run_fail run_denied run_absent gen_missing by blast
qed

theorem root_parse_check_pins_witness:
  "fst (root_parse_check True False ex_args ex_pinned) = Inr () \<and>
   w_pins (snd (root_parse_check True False ex_args ex_pinned)) (pin ex_args 0) = None \<and>
   w_pins (snd (root_parse_check True False ex_args ex_pinned)) (pin ex_args 1) = None \<and>
   w_pins (snd (root_parse_check True False ex_args ex_pinned)) (pin ex_args 2) = None \<and>
   w_pins (snd (root_parse_check True False ex_args ex_pinned)) (pin ex_args 3) = None \<and>
   root_parse_check True False ex_args (snd (root_parse_check True False ex_args ex_pinned)) =
     (Inr (), snd (root_parse_check True False ex_args ex_pinned)) \<and>
   (\<exists>p < 4. root_gen ex_args (\<lambda>_. []) ex_empty =
      (Fatal (CouldNotAccess (pin ex_args p)), ex_empty))"
proof -
  have e: "fst (root_parse_check True False ex_args ex_pinned) = Inr ()"
    by (simp add: root_parse_check_def NUM_PINNED_MAPS_def upt_rec access_ok_def unlink_def
        ex_pins ex_pinned_def ex_empty_def)
  then have r: "root_parse_check True False ex_args ex_pinned =
      (Inr (), snd (root_parse_check True False ex_args ex_pinned))"
    by (metis prod.collapse)
  have m: "\<exists>p < 4. w_pins ex_empty (pin ex_args p) = None"
    by (intro exI [of _ 0]) (simp add: ex_empty_def)
  have "(0::nat) < 4" "(1::nat) < 4" "(2::nat) < 4" "(3::nat) < 4" by simp_all
  with root_parse_check_pins [of ex_args ex_pinned "\<lambda>_. []"]
    root_parse_check_pins [of ex_args ex_empty "\<lambda>_. []"]
    e r m show ?thesis by blast
qed

section \<open>Reading the single value of a map\<close>

lemma fold_max_ge: "x \<in> set xs \<Longrightarrow> x \<le> fold max xs (a::'a::linorder)"
  by (metis List.finite_set Max.set_eq_fold Max_ge list.set_intros(2))

lemma fresh_block_notin: "fresh_block h \<notin> fst ` set h"
proof
  assume "fresh_block h \<in> fst ` set h"
  then have "fresh_block h \<in> set (map fst h)" by simp
  then have "fresh_block h \<le> fold max (map fst h) 0" by (rule fold_max_ge)
  then show False by (simp add: fresh_block_def)
qed

lemma fresh_block_nonzero: "fresh_block h \<noteq> 0"
  by (simp add: fresh_block_def)

lemma filter_fresh: "p \<notin> fst ` set h \<Longrightarrow> filter (\<lambda>b. fst b \<noteq> p) h = h"
  by (induction h) auto

lemma malloc_ok:
  "n \<le> w_avail w \<Longrightarrow>
     malloc n w = (fresh_block (w_heap w),
                   w\<lparr>w_heap := (fresh_block (w_heap w), n) # w_heap w, w_avail := w_avail w - n\<rparr>)"
  by (simp add: malloc_def Let_def)

lemma malloc_frame:
  "malloc n w = (p, w1) \<Longrightarrow>
     w_pins w1 = w_pins w \<and> w_files w1 = w_files w \<and> w_denied w1 = w_denied w \<and>
     w_fds w1 = w_fds w"
  by (auto simp: malloc_def Let_def split: if_splits)

lemma malloc_zero: "malloc 0 w = (p, w1) \<Longrightarrow> p \<noteq> 0"
  by (auto simp: malloc_def Let_def fresh_block_def)

lemma free_frame:
  "w_pins (free p w) = w_pins w" "w_files (free p w) = w_files w"
  "w_denied (free p w) = w_denied w" "w_fds (free p w) = w_fds w"
  by (auto simp: free_def split: option.splits)

text \<open>A block that is allocated and freed leaves the world as it was.\<close>

lemma free_malloc_eq: "malloc n w = (p, w1) \<Longrightarrow> free p w1 = w"
  using fresh_block_notin [of "w_heap w"]
  by (auto simp: malloc_def free_def Let_def fresh_block_nonzero filter_fresh split: if_splits)

lemma free_two:
  assumes "malloc n w = (k, w1)" "malloc m w1 = (v, w2)"
  shows "free v (free k w2) = w"
proof (cases "k = 0")
  case True
  then have "w1 = w"
    using assms(1) by (auto simp: malloc_def Let_def fresh_block_nonzero split: if_splits)
  then show ?thesis using True assms(2) free_malloc_eq by (simp add: free_def)
next
  case False
  then have w1: "w1 = w\<lparr>w_heap := (k, n) # w_heap w, w_avail := w_avail w - n\<rparr>"
    and kf: "k = fresh_block (w_heap w)" and n: "n \<le> w_avail w"
    using assms(1) by (auto simp: malloc_def Let_def split: if_splits)
  show ?thesis
  proof (cases "v = 0")
    case True
    then have "w2 = w1"
      using assms(2) by (auto simp: malloc_def Let_def fresh_block_nonzero split: if_splits)
    then show ?thesis using True free_malloc_eq [OF assms(1)] by (simp add: free_def)
  next
    case v: False
    then have w2: "w2 = w1\<lparr>w_heap := (v, m) # w_heap w1, w_avail := w_avail w1 - m\<rparr>"
      and vf: "v = fresh_block (w_heap w1)" and m: "m \<le> w_avail w1"
      using assms(2) by (auto simp: malloc_def Let_def split: if_splits)
    have vk: "v \<noteq> k" using fresh_block_notin [of "w_heap w1"] vf w1 by auto
    have vh: "v \<notin> fst ` set (w_heap w)" using fresh_block_notin [of "w_heap w1"] vf w1 by auto
    have kh: "k \<notin> fst ` set (w_heap w)" using fresh_block_notin [of "w_heap w"] kf by auto
    show ?thesis
      using False v vk vh kh n m by (simp add: free_def w2 w1 filter_fresh)
  qed
qed

lemma close_fd: "map_of (w_fds (close fd w)) fd = None"
  by (auto simp: close_def map_of_eq_None_iff)

lemma close_other:
  "w_heap (close fd w) = w_heap w" "w_avail (close fd w) = w_avail w"
  "w_pins (close fd w) = w_pins w" "w_files (close fd w) = w_files w"
  "w_denied (close fd w) = w_denied w"
  by (simp_all add: close_def)

lemma error_out_eq:
  assumes "malloc n w = (k, w1)" "malloc m w1 = (v, w2)"
  shows "error_out fd k v err w2 = close fd w"
  using free_two [OF assms] by (simp add: error_out_def)

lemma get_global_data_Inr:
  assumes "get_global_data fd mi data w = Inr (err, data', w')"
  shows "w' = close fd w" and "err \<noteq> 0 \<longrightarrow> data' = data"
proof -
  obtain k w1 where m1: "malloc (unat (key_size mi)) w = (k, w1)"
    by (cases "malloc (unat (key_size mi)) w")
  obtain v w2 where m2: "malloc (unat (value_size mi)) w1 = (v, w2)"
    by (cases "malloc (unat (value_size mi)) w1")
  note eo = error_out_eq [OF m1 m2]
  from assms show "w' = close fd w"
    unfolding get_global_data_def m1 m2 Let_def prod.case
    by (auto simp: eo split: if_splits prod.splits sum.splits)
  from assms show "err \<noteq> 0 \<longrightarrow> data' = data"
    unfolding get_global_data_def m1 m2 Let_def prod.case
    by (auto simp: eo split: if_splits prod.splits sum.splits)
qed

lemma get_global_data_max_entries:
  assumes me: "max_entries mi > 1"
  shows "get_global_data fd mi data w = Inr (- 1, data, close fd w)"
proof -
  obtain kp w1 where m1: "malloc (unat (key_size mi)) w = (kp, w1)"
    by (cases "malloc (unat (key_size mi)) w")
  obtain vp w2 where m2: "malloc (unat (value_size mi)) w1 = (vp, w2)"
    by (cases "malloc (unat (value_size mi)) w1")
  show ?thesis
    unfolding get_global_data_def m1 m2 Let_def prod.case
    using me by (simp add: error_out_eq [OF m1 m2])
qed

text \<open>What a call that returns 0 has copied: the value of the only entry.\<close>

lemma get_global_data_ok:
  assumes r: "get_global_data fd (info m) data w = Inr (0, data', w')"
    and fd: "map_of (w_fds w) fd = Some m"
    and wf: "wf_map m"
  shows "\<exists>k v. entries m = [(k, v)] \<and> memcpy data v (unat (value_size (info m))) = Inr data'"
proof -
  obtain kp w1 where m1: "malloc (unat (key_size (info m))) w = (kp, w1)"
    by (cases "malloc (unat (key_size (info m))) w")
  obtain vp w2 where m2: "malloc (unat (value_size (info m))) w1 = (vp, w2)"
    by (cases "malloc (unat (value_size (info m))) w1")
  have fds: "w_fds w2 = w_fds w" using malloc_frame [OF m1] malloc_frame [OF m2] by simp
  from r have me: "\<not> max_entries (info m) > 1" and ne: "entries m \<noteq> []"
    unfolding get_global_data_def m1 m2 Let_def prod.case
    by (auto simp: bpf_map_get_next_key_def fds fd split: if_splits list.splits)
  from me have "unat (max_entries (info m)) \<le> 1"
    by (simp add: word_less_nat_alt not_less)
  with wf have "length (entries m) \<le> 1" by (simp add: wf_map_def)
  with ne obtain k v where e: "entries m = [(k, v)]"
    by (cases "entries m") auto
  with wf have lk: "length k = unat (key_size (info m))"
    and lv: "length v = unat (value_size (info m))"
    by (auto simp: wf_map_def)
  from r have "memcpy data v (unat (value_size (info m))) = Inr data'"
    unfolding get_global_data_def m1 m2 Let_def prod.case
    by (auto simp: bpf_map_get_next_key_def bpf_map_lookup_elem_def fds fd e copy_out_def lk lv
        split: if_splits sum.splits)
  with e show ?thesis by blast
qed

text \<open>When a call returns 0: one entry, room on the heap, room in the buffer.\<close>

lemma get_global_data_succeeds:
  assumes fd: "map_of (w_fds w) fd = Some m"
    and e: "entries m = [(k, v)]"
    and lk: "length k = unat (key_size (info m))"
    and lv: "length v = unat (value_size (info m))"
    and me: "max_entries (info m) \<le> 1"
    and mem: "unat (key_size (info m)) + unat (value_size (info m)) \<le> w_avail w"
    and buf: "length buf = unat (value_size (info m))"
    and nr: "\<not> lookup_refused m"
  shows "get_global_data fd (info m) (Some buf) w = Inr (0, Some v, close fd w)"
proof -
  let ?ks = "unat (key_size (info m))" and ?vs = "unat (value_size (info m))"
  define w1 where "w1 = w\<lparr>w_heap := (fresh_block (w_heap w), ?ks) # w_heap w,
    w_avail := w_avail w - ?ks\<rparr>"
  define w2 where "w2 = w1\<lparr>w_heap := (fresh_block (w_heap w1), ?vs) # w_heap w1,
    w_avail := w_avail w1 - ?vs\<rparr>"
  have m1: "malloc ?ks w = (fresh_block (w_heap w), w1)"
    unfolding w1_def using mem by (intro malloc_ok) simp
  have m2: "malloc ?vs w1 = (fresh_block (w_heap w1), w2)"
    unfolding w2_def using mem by (intro malloc_ok) (simp add: w1_def)
  have fds: "w_fds w2 = w_fds w" by (simp add: w1_def w2_def)
  have nme: "\<not> 1 < max_entries (info m)" using me by simp
  show ?thesis
    unfolding get_global_data_def m1 m2 Let_def prod.case
    by (simp add: fresh_block_nonzero nme bpf_map_get_next_key_def bpf_map_lookup_elem_def fds fd e
        copy_out_def lk lv memcpy_def buf nr error_out_eq [OF m1 m2])
qed

lemma ex_wf: "wf_map ex_profc" "wf_map ex_profd" "wf_map ex_profn" "wf_map ex_covmap"
  by (simp_all add: wf_map_def ex_profc_def ex_profd_def ex_profn_def ex_covmap_def ex_key_def)

text \<open>
  Claim C10. Whenever \<^verbatim>\<open>get_global_data\<close> returns, the descriptor is closed and the heap
  is what it was before the call (both buffers freed, nothing else touched), and when the
  value returned is not 0 the buffer of the caller holds what it held. It returns -1, the
  buffer untouched, when an allocation fails, when more than one entry is declared, when
  there is no first key, and when the map has a first key and the kernel refuses the
  lookup of its element. It does return when the map behind the descriptor is the one the
  description is of and the buffer of the caller has room for a value.
\<close>

theorem get_global_data_atomic:
  "(\<forall>err data' w'. get_global_data fd mi data w = Inr (err, data', w') \<longrightarrow>
      w' = close fd w \<and> map_of (w_fds w') fd = None \<and> w_heap w' = w_heap w \<and>
      w_avail w' = w_avail w \<and> (err \<noteq> 0 \<longrightarrow> data' = data)) \<and>
   (w_avail w < unat (key_size mi) + unat (value_size mi) \<longrightarrow>
      get_global_data fd mi data w = Inr (- 1, data, close fd w)) \<and>
   (1 < max_entries mi \<longrightarrow> get_global_data fd mi data w = Inr (- 1, data, close fd w)) \<and>
   (map_of (w_fds w) fd = None \<or> (\<exists>m. map_of (w_fds w) fd = Some m \<and> entries m = []) \<longrightarrow>
      get_global_data fd mi data w = Inr (- 1, data, close fd w)) \<and>
   (\<forall>m k v es. map_of (w_fds w) fd = Some m \<and> entries m = (k, v) # es \<and> lookup_refused m \<and>
      length k \<le> unat (key_size mi) \<and>
      unat (key_size mi) + unat (value_size mi) \<le> w_avail w \<and> \<not> 1 < max_entries mi \<longrightarrow>
      get_global_data fd mi data w = Inr (- 1, data, close fd w)) \<and>
   ((\<forall>m. map_of (w_fds w) fd = Some m \<longrightarrow> wf_map m \<and> mi = info m) \<and>
    (\<exists>buf. data = Some buf \<and> unat (value_size mi) \<le> length buf) \<longrightarrow>
      (\<exists>err data' w'. get_global_data fd mi data w = Inr (err, data', w')))"
proof -
  obtain kp w1 where m1: "malloc (unat (key_size mi)) w = (kp, w1)"
    by (cases "malloc (unat (key_size mi)) w")
  obtain vp w2 where m2: "malloc (unat (value_size mi)) w1 = (vp, w2)"
    by (cases "malloc (unat (value_size mi)) w1")
  note eo = error_out_eq [OF m1 m2]
  have fds: "w_fds w2 = w_fds w" using malloc_frame [OF m1] malloc_frame [OF m2] by simp
  note unf = get_global_data_def m1 m2 Let_def prod.case
  have a: "w' = close fd w \<and> map_of (w_fds w') fd = None \<and> w_heap w' = w_heap w \<and>
      w_avail w' = w_avail w \<and> (err \<noteq> 0 \<longrightarrow> data' = data)"
    if "get_global_data fd mi data w = Inr (err, data', w')" for err data' w'
    using get_global_data_Inr [OF that] by (simp add: close_fd close_other)
  have b: "get_global_data fd mi data w = Inr (- 1, data, close fd w)"
    if "w_avail w < unat (key_size mi) + unat (value_size mi)"
  proof -
    from that m1 m2 have "kp = 0 \<or> vp = 0"
      by (auto simp: malloc_def Let_def split: if_splits)
    then show ?thesis unfolding unf by (simp add: eo)
  qed
  have c: "get_global_data fd mi data w = Inr (- 1, data, close fd w)" if "1 < max_entries mi"
    using that by (rule get_global_data_max_entries)
  have d: "get_global_data fd mi data w = Inr (- 1, data, close fd w)"
    if "map_of (w_fds w) fd = None \<or> (\<exists>m. map_of (w_fds w) fd = Some m \<and> entries m = [])"
    using that unfolding unf by (auto simp: eo bpf_map_get_next_key_def fds)
  have e: "\<exists>err data' w'. get_global_data fd mi data w = Inr (err, data', w')"
    if wf: "\<forall>m. map_of (w_fds w) fd = Some m \<longrightarrow> wf_map m \<and> mi = info m"
      and buf: "\<exists>buf. data = Some buf \<and> unat (value_size mi) \<le> length buf"
  proof (cases "map_of (w_fds w) fd")
    case None
    with d show ?thesis by simp
  next
    case (Some m)
    with wf have wfm: "wf_map m" and mi: "mi = info m" by simp_all
    show ?thesis
    proof (cases "entries m")
      case Nil
      with d Some show ?thesis by simp
    next
      case (Cons e es)
      obtain k v where e: "e = (k, v)" by (cases e)
      from wfm Cons e have lk: "length k = unat (key_size mi)"
        and lv: "length v = unat (value_size mi)"
        by (simp_all add: wf_map_def mi)
      from buf obtain b where b: "data = Some b" "unat (value_size mi) \<le> length b" by blast
      from b have nb: "\<not> length b < unat (value_size mi)" by simp
      show ?thesis
        unfolding unf
        by (simp add: bpf_map_get_next_key_def bpf_map_lookup_elem_def fds Some Cons e
            copy_out_def lk lv memcpy_def b(1) nb)
    qed
  qed
  have f: "get_global_data fd mi data w = Inr (- 1, data, close fd w)"
    if fd: "map_of (w_fds w) fd = Some m" and en: "entries m = (k, v) # es"
      and refused: "lookup_refused m" and lk: "length k \<le> unat (key_size mi)"
      and mem: "unat (key_size mi) + unat (value_size mi) \<le> w_avail w"
      and me: "\<not> 1 < max_entries mi" for m k v es
  proof -
    from mem m1 have kp: "kp \<noteq> 0" and a1: "w_avail w1 = w_avail w - unat (key_size mi)"
      by (auto simp: malloc_def Let_def fresh_block_def split: if_splits)
    from mem m2 a1 have vp: "vp \<noteq> 0"
      by (auto simp: malloc_def Let_def fresh_block_def split: if_splits)
    from lk have nk: "\<not> unat (key_size mi) < length k" by simp
    show ?thesis
      unfolding unf
      by (simp add: kp vp me bpf_map_get_next_key_def bpf_map_lookup_elem_def fds fd en refused
          copy_out_def nk eo)
  qed
  have f': "\<forall>m k v es. map_of (w_fds w) fd = Some m \<and> entries m = (k, v) # es \<and>
      lookup_refused m \<and> length k \<le> unat (key_size mi) \<and>
      unat (key_size mi) + unat (value_size mi) \<le> w_avail w \<and> \<not> 1 < max_entries mi \<longrightarrow>
      get_global_data fd mi data w = Inr (- 1, data, close fd w)"
    by (intro allI impI, elim conjE) (rule f)
  show ?thesis
    by (intro conjI)
      (use a in blast, use b in blast, use c in blast, use d in blast, rule f', use e in blast)
qed

theorem get_global_data_atomic_witness:
  "(\<exists>err data' w'.
      get_global_data 3 (info ex_covmap) (Some (replicate 16 0)) ex_opened = Inr (err, data', w') \<and>
      map_of (w_fds w') 3 = None \<and> w_heap w' = w_heap ex_opened \<and>
      w_avail w' = w_avail ex_opened) \<and>
   get_global_data 3 (info ex_covmap) (Some (replicate 16 0)) ex_refused =
     Inr (- 1, Some (replicate 16 0), close 3 ex_refused) \<and>
   w_fds (close 3 ex_refused) = [] \<and> w_heap (close 3 ex_refused) = w_heap ex_refused \<and>
   w_avail (close 3 ex_refused) = w_avail ex_refused"
proof -
  have wf: "\<forall>m. map_of (w_fds ex_opened) 3 = Some m \<longrightarrow> wf_map m \<and> info ex_covmap = info m"
    by (simp add: ex_opened_def ex_wf)
  have b: "\<exists>buf. Some (replicate 16 0) = Some buf \<and>
      unat (value_size (info ex_covmap)) \<le> length buf"
    by (simp add: ex_covmap_def)
  have r: "map_of (w_fds ex_refused) 3 = Some (ex_covmap\<lparr>lookup_refused := True\<rparr>) \<and>
      entries (ex_covmap\<lparr>lookup_refused := True\<rparr>) =
        (ex_key, [0, 0, 0, 0, 0, 0, 0, 0, 0, 0, 0, 0, 3, 0, 0, 0]) # [] \<and>
      lookup_refused (ex_covmap\<lparr>lookup_refused := True\<rparr>) \<and>
      length ex_key \<le> unat (key_size (info ex_covmap)) \<and>
      unat (key_size (info ex_covmap)) + unat (value_size (info ex_covmap)) \<le> w_avail ex_refused \<and>
      \<not> 1 < max_entries (info ex_covmap)"
    by (simp add: ex_refused_def ex_empty_def ex_covmap_def ex_key_def)
  have c: "w_fds (close 3 ex_refused) = []" "w_heap (close 3 ex_refused) = w_heap ex_refused"
    "w_avail (close 3 ex_refused) = w_avail ex_refused"
    by (simp_all add: close_def ex_refused_def)
  note opened = get_global_data_atomic [of 3 "info ex_covmap" "Some (replicate 16 0)" ex_opened]
  note refused = get_global_data_atomic [of 3 "info ex_covmap" "Some (replicate 16 0)" ex_refused]
  from opened [THEN conjunct1]
    opened [THEN conjunct2, THEN conjunct2, THEN conjunct2, THEN conjunct2, THEN conjunct2] wf b
  have "\<exists>err data' w'.
      get_global_data 3 (info ex_covmap) (Some (replicate 16 0)) ex_opened = Inr (err, data', w') \<and>
      map_of (w_fds w') 3 = None \<and> w_heap w' = w_heap ex_opened \<and>
      w_avail w' = w_avail ex_opened"
    by blast
  moreover
  from refused [THEN conjunct2, THEN conjunct2, THEN conjunct2, THEN conjunct2, THEN conjunct1,
      THEN spec, THEN spec, THEN spec, THEN spec, THEN mp, OF r]
  have "get_global_data 3 (info ex_covmap) (Some (replicate 16 0)) ex_refused =
     Inr (- 1, Some (replicate 16 0), close 3 ex_refused)" .
  ultimately show ?thesis using c by simp
qed

section \<open>The profraw file\<close>

lemma length_le32 [simp]: "length (le32 x) = 4"
  by (simp add: le32_def)

lemma length_le64 [simp]: "length (le64 x) = 8"
  by (simp add: le64_def)

lemma le32_examples: "le32 16 = [16, 0, 0, 0]" "le32 1 = [1, 0, 0, 0]"
  by (simp_all add: le32_def upt_rec)

lemma le_word_example: "(le_word [3, 0, 0, 0 :: byte] :: u32) = 3"
  by (simp add: le_word_def)

text \<open>Adding one to a 32-bit number held in 64 bits never wraps around.\<close>

lemma unat_version: "unat (ucast (x :: u32) + (1 :: u64)) = unat x + 1"
proof -
  have lt: "unat x < 2 ^ 32" using unsigned_less [of x, where 'a = nat] by simp
  then have "unat x < 2 ^ 64" by simp
  then have u: "unat (ucast x :: u64) = unat x"
    by (simp add: unsigned_ucast_eq take_bit_nat_eq_self)
  from lt have "unat (ucast x :: u64) + unat (1 :: u64) < 2 ^ LENGTH(64)"
    by (simp add: u)
  then have "unat (ucast x + (1 :: u64)) = unat (ucast x :: u64) + unat (1 :: u64)"
    by (rule unat_add_lem [THEN iffD1])
  then show ?thesis by (simp add: u)
qed

lemma names_field:
  "take 8 (drop value_size_offset (info_bytes mi)) = le32 (value_size mi) @ le32 (max_entries mi)"
  by (simp add: info_bytes_def value_size_offset_def)

lemma version_field:
  "take 8 (drop 8 (profraw_header vh a b c @ rest)) =
     le64 (ucast (le_word (take 4 (drop 12 vh)) :: u32) + 1)"
  by (simp add: profraw_header_def magic_def)

lemma fwrite_frame:
  "w_pins (fwrite path bs w) = w_pins w" "w_denied (fwrite path bs w) = w_denied w"
  "w_fds (fwrite path bs w) = w_fds w" "w_heap (fwrite path bs w) = w_heap w"
  "w_avail (fwrite path bs w) = w_avail w"
  by (auto simp: fwrite_def split: option.splits)

lemma fwrite_files_same [simp]:
  "w_files (fwrite path bs w) path = map_option (\<lambda>old. old @ bs) (w_files w path)"
  by (simp add: fwrite_def split: option.splits)

lemma fwrite_buffer_files:
  "w_files (fwrite_buffer path data n w) path =
     map_option (\<lambda>old. old @ (case data of None \<Rightarrow> [] | Some bs \<Rightarrow> take n bs)) (w_files w path)"
  by (cases "w_files w path") (simp_all add: fwrite_buffer_def split: option.splits)

lemma fwrite_buffer_pins: "w_pins (fwrite_buffer path data n w) = w_pins w"
  by (simp add: fwrite_buffer_def fwrite_frame split: option.splits)

lemma bpf_obj_get_present:
  "w_pins w path = Some m \<Longrightarrow>
     bpf_obj_get path w = (fresh_fd (w_fds w), w\<lparr>w_fds := (fresh_fd (w_fds w), m) # w_fds w\<rparr>)"
  by (simp add: bpf_obj_get_def Let_def)

lemma gen_map_info_present:
  "w_pins w path = Some m \<Longrightarrow>
     gen_map_info path w = (Inr (info m), w\<lparr>w_fds := (fresh_fd (w_fds w), m) # w_fds w\<rparr>)"
  by (simp add: gen_map_info_def bpf_obj_get_present get_map_info_def bpf_obj_get_info_by_fd_def)

lemma gen_global_data_not_Done: "gen_global_data path mi w \<noteq> (Inl Done, w1)"
  by (auto simp: gen_global_data_def Let_def split: prod.splits sum.splits if_splits)

lemma gen_global_data_Inl:
  "gen_global_data path mi w = (Inl r, w1) \<Longrightarrow>
     (\<exists>f. r = Crash f) \<or> r = Fatal (CouldNotGetGlobalData path)"
  by (auto simp: gen_global_data_def Let_def split: prod.splits sum.splits if_splits)

lemma gen_global_data_frame:
  assumes "gen_global_data path mi w = (r, w1)"
  shows "w_pins w1 = w_pins w \<and> w_files w1 = w_files w \<and> w_denied w1 = w_denied w"
proof -
  obtain p wa where m: "malloc (unat (value_size mi)) w = (p, wa)"
    by (cases "malloc (unat (value_size mi)) w")
  obtain fd wb where g: "bpf_obj_get path wa = (fd, wb)" by (cases "bpf_obj_get path wa")
  have f: "w_pins wb = w_pins w \<and> w_files wb = w_files w \<and> w_denied wb = w_denied w"
    using malloc_frame [OF m] g by (auto simp: bpf_obj_get_def Let_def split: option.splits)
  show ?thesis
    using assms f unfolding gen_global_data_def m g Let_def prod.case
    by (auto split: sum.splits if_splits dest!: get_global_data_Inr(1) simp: close_other)
qed

lemma gen_global_data_ok:
  assumes r: "gen_global_data path (info m) w = (Inr (ptr, data), w1)"
    and pin: "w_pins w path = Some m" and wf: "wf_map m"
  shows "\<exists>k v. entries m = [(k, v)] \<and> data = Some v"
proof -
  let ?n = "unat (value_size (info m))"
  obtain p wa where m: "malloc ?n w = (p, wa)" by (cases "malloc ?n w")
  have pa: "w_pins wa path = Some m" using malloc_frame [OF m] pin by simp
  note g = bpf_obj_get_present [OF pa]
  let ?fd = "fresh_fd (w_fds wa)"
  let ?wb = "wa\<lparr>w_fds := (?fd, m) # w_fds wa\<rparr>"
  from r obtain w' where gg: "get_global_data ?fd (info m) (buffer p ?n) ?wb = Inr (0, data, w')"
    unfolding gen_global_data_def m g Let_def prod.case
    by (auto split: sum.splits if_splits)
  have "map_of (w_fds ?wb) ?fd = Some m" by simp
  from get_global_data_ok [OF gg this wf] obtain k v where e: "entries m = [(k, v)]"
    and mc: "memcpy (buffer p ?n) v ?n = Inr data" by blast
  from e wf have lv: "length v = ?n" by (simp add: wf_map_def)
  have "p \<noteq> 0"
  proof
    assume p0: "p = 0"
    with mc have "?n = 0" by (auto simp: buffer_def memcpy_def split: if_splits)
    with m malloc_zero show False using p0 by metis
  qed
  with mc lv have "data = Some v" by (auto simp: buffer_def memcpy_def split: if_splits)
  with e show ?thesis by blast
qed

lemma gen_global_data_max_entries:
  assumes "max_entries mi > 1"
  shows "\<exists>w1. gen_global_data path mi w = (Inl (Fatal (CouldNotGetGlobalData path)), w1)"
proof -
  obtain p wa where m: "malloc (unat (value_size mi)) w = (p, wa)"
    by (cases "malloc (unat (value_size mi)) w")
  obtain fd wb where g: "bpf_obj_get path wa = (fd, wb)" by (cases "bpf_obj_get path wa")
  show ?thesis
    unfolding gen_global_data_def m g Let_def prod.case
    by (simp add: get_global_data_max_entries [OF assms])
qed

lemma gen_global_data_succeeds:
  assumes pin: "w_pins w path = Some m"
    and e: "entries m = [(k, v)]"
    and lk: "length k = unat (key_size (info m))"
    and lv: "length v = unat (value_size (info m))"
    and me: "max_entries (info m) \<le> 1"
    and mem: "unat (key_size (info m)) + 2 * unat (value_size (info m)) \<le> w_avail w"
    and nr: "\<not> lookup_refused m"
  shows "\<exists>w1. gen_global_data path (info m) w = (Inr (fresh_block (w_heap w), Some v), w1) \<and>
           w_heap w1 = (fresh_block (w_heap w), unat (value_size (info m))) # w_heap w \<and>
           w_avail w1 = w_avail w - unat (value_size (info m)) \<and>
           w_pins w1 = w_pins w \<and> w_files w1 = w_files w \<and> w_denied w1 = w_denied w"
proof -
  let ?vs = "unat (value_size (info m))"
  define wa where "wa = w\<lparr>w_heap := (fresh_block (w_heap w), ?vs) # w_heap w,
    w_avail := w_avail w - ?vs\<rparr>"
  have m: "malloc ?vs w = (fresh_block (w_heap w), wa)"
    unfolding wa_def using mem by (intro malloc_ok) simp
  have pa: "w_pins wa path = Some m" by (simp add: wa_def pin)
  note g = bpf_obj_get_present [OF pa]
  let ?fd = "fresh_fd (w_fds wa)"
  let ?wb = "wa\<lparr>w_fds := (?fd, m) # w_fds wa\<rparr>"
  have gg: "get_global_data ?fd (info m) (Some (replicate ?vs 0)) ?wb =
      Inr (0, Some v, close ?fd ?wb)"
    using mem nr by (intro get_global_data_succeeds [OF _ e lk lv me]) (simp_all add: wa_def)
  show ?thesis
    unfolding gen_global_data_def m g Let_def prod.case
    by (simp add: buffer_def fresh_block_nonzero gg close_def) (simp add: wa_def)
qed

lemma gen_map_info_frame:
  "gen_map_info path w = (r, w1) \<Longrightarrow>
     w_pins w1 = w_pins w \<and> w_files w1 = w_files w \<and> w_denied w1 = w_denied w"
  by (auto simp: gen_map_info_def bpf_obj_get_def Let_def split: prod.splits option.splits if_splits)

text \<open>The header stage of \<^verbatim>\<open>gen\<close>: either it fails, or the file holds the header and the
  rest of \<^verbatim>\<open>gen\<close> runs from there.\<close>
lemma gen_header:
  assumes r: "gen args w = (res, w')"
    and p0: "w_pins w (pin args 0) = Some profc"
    and p1: "w_pins w (pin args 1) = Some profd"
    and p2: "w_pins w (pin args 2) = Some profn"
    and p3: "w_pins w (pin args 3) = Some covmap"
    and wf3: "wf_map covmap"
  shows "(res = Fatal (CouldNotOpenOutput (output_path args)) \<and> w_denied w (output_path args) \<and>
            w_files w' = w_files w) \<or>
         (((\<exists>f. res = Crash f) \<or> res = Fatal (CouldNotGetGlobalData (pin args 3))) \<and>
            w_files w' (output_path args) = Some magic) \<or>
         (\<exists>kh vh w8. entries covmap = [(kh, vh)] \<and>
            (if length vh < 16 then res = Crash OutOfBounds \<and> w_files w' (output_path args) = Some magic
             else
            w_files w8 (output_path args) =
               Some (profraw_header vh (info profd) (info profc) (info profn)) \<and>
            w_pins w8 = w_pins w \<and>
            (res, w') =
              (case gen_global_data (pin args 1) (info profd) w8 of
                 (Inl r, w) \<Rightarrow> (r, w)
               | (Inr (profd_ptr, profd_data), w) \<Rightarrow>
                 (case gen_global_data (pin args 0) (info profc)
                    (fwrite_buffer (output_path args) profd_data (unat (value_size (info profd))) w) of
                    (Inl r, w) \<Rightarrow> (r, w)
                  | (Inr (profc_ptr, profc_data), w) \<Rightarrow>
                      (Done, fwrite_buffer (output_path args) profc_data
                               (unat (value_size (info profc))) w)))))"
proof -
  let ?out = "output_path args"
  define w1 where "w1 = w\<lparr>w_fds := (fresh_fd (w_fds w), profc) # w_fds w\<rparr>"
  define w2 where "w2 = w1\<lparr>w_fds := (fresh_fd (w_fds w1), profd) # w_fds w1\<rparr>"
  define w3 where "w3 = w2\<lparr>w_fds := (fresh_fd (w_fds w2), profn) # w_fds w2\<rparr>"
  define w4 where "w4 = w3\<lparr>w_fds := (fresh_fd (w_fds w3), covmap) # w_fds w3\<rparr>"
  have pins4: "w_pins w4 = w_pins w" "w_pins w3 = w_pins w" "w_pins w2 = w_pins w" "w_pins w1 = w_pins w"
    by (simp_all add: w1_def w2_def w3_def w4_def)
  have fr4: "w_files w4 = w_files w" "w_denied w4 = w_denied w"
    by (simp_all add: w1_def w2_def w3_def w4_def)
  have s1: "gen_map_info (pin args 0) w = (Inr (info profc), w1)"
    unfolding w1_def by (rule gen_map_info_present [OF p0])
  have s2: "gen_map_info (pin args 1) w1 = (Inr (info profd), w2)"
    unfolding w2_def by (rule gen_map_info_present) (use p1 in \<open>simp add: pins4\<close>)
  have s3: "gen_map_info (pin args 2) w2 = (Inr (info profn), w3)"
    unfolding w3_def by (rule gen_map_info_present) (use p2 in \<open>simp add: pins4\<close>)
  have s4: "gen_map_info (pin args 3) w3 = (Inr (info covmap), w4)"
    unfolding w4_def by (rule gen_map_info_present) (use p3 in \<open>simp add: pins4\<close>)
  note r4 = r [unfolded gen_def s1 s2 s3 s4 prod.case sum.case]
  show ?thesis
  proof (cases "w_denied w ?out")
    case True
    then have "fopen_wb ?out w4 = None" by (simp add: fopen_wb_def fr4)
    with r4 have "res = Fatal (CouldNotOpenOutput ?out)" "w' = w4" by simp_all
    with True fr4 show ?thesis by (intro disjI1) simp
  next
    case False
    define w5 where "w5 = w4\<lparr>w_files := (w_files w4)(?out \<mapsto> [])\<rparr>"
    have fo: "fopen_wb ?out w4 = Some w5"
      using False by (simp add: fopen_wb_def w5_def fr4)
    define w6 where "w6 = fwrite ?out magic w5"
    have f6: "w_files w6 ?out = Some magic" and pins6: "w_pins w6 = w_pins w"
      by (simp_all add: w6_def w5_def pins4 fwrite_frame)
    note r6 = r4 [unfolded fo option.case Let_def, folded w6_def]
    obtain x w7 where g3: "gen_global_data (pin args 3) (info covmap) w6 = (x, w7)"
      by (cases "gen_global_data (pin args 3) (info covmap) w6")
    have fr7: "w_pins w7 = w_pins w" "w_files w7 ?out = Some magic"
      using gen_global_data_frame [OF g3] pins6 f6 by simp_all
    show ?thesis
    proof (cases x)
      case (Inl r')
      with r6 g3 have "res = r'" "w' = w7" by simp_all
      with gen_global_data_Inl [OF g3 [unfolded Inl]] fr7 show ?thesis
        by (intro disjI2 disjI1) simp
    next
      case (Inr pd)
      obtain cptr cdata where pd: "pd = (cptr, cdata)" by (cases pd)
      note g3 = g3 [unfolded Inr pd]
      from gen_global_data_ok [OF g3 _ wf3] pins6 p3 obtain kh vh
        where eh: "entries covmap = [(kh, vh)]" and cdata: "cdata = Some vh" by auto
      note r7 = r6 [unfolded g3 prod.case sum.case cdata option.case]
      show ?thesis
      proof (cases "length vh < 12 + 4")
        case True
        with r7 have "res = Crash OutOfBounds" "w' = w7" by simp_all
        with eh True fr7 show ?thesis
          by (intro disjI2 exI [of _ kh] exI [of _ vh] exI [of _ w7]) simp
      next
        case False
        then have lh': "(length vh < 12 + 4) = False" by simp
        define w8 where "w8 =
          fwrite ?out (le64 1) (fwrite ?out (le64 0) (fwrite ?out (le64 0)
           (fwrite ?out (take (4 * 2) (drop value_size_offset (info_bytes (info profn))))
            (fwrite ?out (le64 0) (fwrite ?out (le64 (ucast (value_size (info profc) div 8)))
             (fwrite ?out (le64 0) (fwrite ?out (le64 (ucast (value_size (info profd) div 48)))
              (free cptr (fwrite ?out (le64 (ucast (le_word (take 4 (drop 12 vh)) :: u32) + 1)) w7)))))))))"
        have f8: "w_files w8 ?out = Some (profraw_header vh (info profd) (info profc) (info profn))"
          and pins8: "w_pins w8 = w_pins w"
          by (simp_all add: w8_def fr7 free_frame fwrite_frame profraw_header_def names_field)
        note r8 = r7 [unfolded lh' if_False, folded w8_def, unfolded Let_def, symmetric]
        from eh False f8 pins8 r8 show ?thesis
          by (intro disjI2 exI [of _ kh] exI [of _ vh] exI [of _ w8]) simp
      qed
    qed
  qed
qed

text \<open>The two sections of \<^verbatim>\<open>gen\<close> only append to the file.\<close>
lemma gen_sections_append:
  assumes t: "(res, w') =
      (case gen_global_data pa mia w8 of
         (Inl r, w) \<Rightarrow> (r, w)
       | (Inr (profd_ptr, profd_data), w) \<Rightarrow>
         (case gen_global_data pb mib (fwrite_buffer out profd_data na w) of
            (Inl r, w) \<Rightarrow> (r, w)
          | (Inr (profc_ptr, profc_data), w) \<Rightarrow> (Done, fwrite_buffer out profc_data nb w)))"
    and f8: "w_files w8 out = Some h"
  shows "\<exists>rest. w_files w' out = Some (h @ rest)"
proof -
  obtain y w9 where g1: "gen_global_data pa mia w8 = (y, w9)"
    by (cases "gen_global_data pa mia w8")
  have f9: "w_files w9 out = Some h" using gen_global_data_frame [OF g1] f8 by simp
  show ?thesis
  proof (cases y)
    case (Inl r')
    with t g1 have "w' = w9" by simp
    with f9 show ?thesis by simp
  next
    case (Inr pd)
    obtain dptr ddata where pd: "pd = (dptr, ddata)" by (cases pd)
    define w10 where "w10 = fwrite_buffer out ddata na w9"
    obtain e where f10: "w_files w10 out = Some (h @ e)"
      by (simp add: w10_def fwrite_buffer_files f9)
    obtain z w11 where g0: "gen_global_data pb mib w10 = (z, w11)"
      by (cases "gen_global_data pb mib w10")
    have f11: "w_files w11 out = Some (h @ e)" using gen_global_data_frame [OF g0] f10 by simp
    note t' = t [unfolded g1 Inr pd prod.case sum.case, folded w10_def, unfolded g0 prod.case]
    show ?thesis
    proof (cases z)
      case (Inl r')
      with t' have "w' = w11" by simp
      with f11 show ?thesis by simp
    next
      case (Inr pc)
      obtain cptr cdata where "pc = (cptr, cdata)" by (cases pc)
      with t' Inr have "w' = fwrite_buffer out cdata nb w11" by simp
      then show ?thesis by (simp add: fwrite_buffer_files f11)
    qed
  qed
qed

text \<open>When both sections are written, they hold the values of the two maps.\<close>
lemma gen_sections_Done:
  assumes t: "(Done, w') =
      (case gen_global_data pa (info ma) w8 of
         (Inl r, w) \<Rightarrow> (r, w)
       | (Inr (profd_ptr, profd_data), w) \<Rightarrow>
         (case gen_global_data pb (info mb)
                 (fwrite_buffer out profd_data (unat (value_size (info ma))) w) of
            (Inl r, w) \<Rightarrow> (r, w)
          | (Inr (profc_ptr, profc_data), w) \<Rightarrow>
              (Done, fwrite_buffer out profc_data (unat (value_size (info mb))) w)))"
    and f8: "w_files w8 out = Some h"
    and pa: "w_pins w8 pa = Some ma" and pb: "w_pins w8 pb = Some mb"
    and wfa: "wf_map ma" and wfb: "wf_map mb"
  shows "\<exists>ka va kb vb. entries ma = [(ka, va)] \<and> entries mb = [(kb, vb)] \<and>
           w_files w' out = Some (h @ va @ vb)"
proof -
  obtain y w9 where g1: "gen_global_data pa (info ma) w8 = (y, w9)"
    by (cases "gen_global_data pa (info ma) w8")
  from t g1 obtain dptr ddata where y: "y = Inr (dptr, ddata)"
    using gen_global_data_not_Done [of pa "info ma" w8 w9]
    by (cases y) auto
  note g1 = g1 [unfolded y]
  from gen_global_data_ok [OF g1 pa wfa] obtain ka va
    where ea: "entries ma = [(ka, va)]" and ddata: "ddata = Some va" by auto
  from ea wfa have lva: "length va = unat (value_size (info ma))" by (simp add: wf_map_def)
  define w10 where "w10 = fwrite_buffer out ddata (unat (value_size (info ma))) w9"
  have f10: "w_files w10 out = Some (h @ va)" and pins10: "w_pins w10 = w_pins w8"
    using gen_global_data_frame [OF g1] f8
    by (simp_all add: w10_def fwrite_buffer_files fwrite_buffer_pins ddata lva)
  note t10 = t [unfolded g1 prod.case sum.case, folded w10_def]
  obtain z w11 where g0: "gen_global_data pb (info mb) w10 = (z, w11)"
    by (cases "gen_global_data pb (info mb) w10")
  from t10 g0 obtain pptr pdata where z: "z = Inr (pptr, pdata)"
    using gen_global_data_not_Done [of pb "info mb" w10 w11]
    by (cases z) auto
  note g0 = g0 [unfolded z]
  from gen_global_data_ok [OF g0 _ wfb] pins10 pb obtain kb vb
    where eb: "entries mb = [(kb, vb)]" and pdata: "pdata = Some vb" by auto
  from eb wfb have lvb: "length vb = unat (value_size (info mb))" by (simp add: wf_map_def)
  from t10 have "w' = fwrite_buffer out pdata (unat (value_size (info mb))) w11"
    unfolding g0 prod.case sum.case by simp
  then have "w_files w' out = Some (h @ va @ vb)"
    using gen_global_data_frame [OF g0] f10
    by (simp add: fwrite_buffer_files pdata lvb)
  with ea eb show ?thesis by blast
qed

lemma gen_Done_file:
  assumes r: "gen args w = (Done, w')"
    and p0: "w_pins w (pin args 0) = Some profc"
    and p1: "w_pins w (pin args 1) = Some profd"
    and p2: "w_pins w (pin args 2) = Some profn"
    and p3: "w_pins w (pin args 3) = Some covmap"
    and wf0: "wf_map profc" and wf1: "wf_map profd" and wf3: "wf_map covmap"
  shows "\<exists>kc vc kd vd kh vh.
           entries profc = [(kc, vc)] \<and> entries profd = [(kd, vd)] \<and>
           entries covmap = [(kh, vh)] \<and> 16 \<le> length vh \<and>
           w_files w' (output_path args) =
             Some (profraw_header vh (info profd) (info profc) (info profn) @ vd @ vc)"
proof -
  from gen_header [OF r p0 p1 p2 p3 wf3] obtain kh vh w8
    where eh: "entries covmap = [(kh, vh)]" and lh: "\<not> length vh < 16"
      and f8: "w_files w8 (output_path args) =
               Some (profraw_header vh (info profd) (info profc) (info profn))"
      and pins8: "w_pins w8 = w_pins w"
      and t: "(Done, w') =
              (case gen_global_data (pin args 1) (info profd) w8 of
                 (Inl r, w) \<Rightarrow> (r, w)
               | (Inr (profd_ptr, profd_data), w) \<Rightarrow>
                 (case gen_global_data (pin args 0) (info profc)
                    (fwrite_buffer (output_path args) profd_data (unat (value_size (info profd))) w) of
                    (Inl r, w) \<Rightarrow> (r, w)
                  | (Inr (profc_ptr, profc_data), w) \<Rightarrow>
                      (Done, fwrite_buffer (output_path args) profc_data
                               (unat (value_size (info profc))) w)))"
    by (auto split: if_splits)
  from gen_sections_Done [OF t f8 _ _ wf1 wf0] pins8 p0 p1
  obtain kd vd kc vc where "entries profd = [(kd, vd)]" "entries profc = [(kc, vc)]"
    "w_files w' (output_path args) =
       Some (profraw_header vh (info profd) (info profc) (info profn) @ vd @ vc)"
    by auto
  with eh lh show ?thesis by (intro exI [of _ kc] exI [of _ vc] exI [of _ kd] exI [of _ vd] exI [of _ kh] exI [of _ vh]) simp
qed

text \<open>\<^verbatim>\<open>gen\<close> returns 0 when each of the three maps it reads has one entry, the header
  value has 16 bytes and the heap has room.\<close>

lemma gen_succeeds:
  assumes p0: "w_pins w (pin args 0) = Some profc"
    and p1: "w_pins w (pin args 1) = Some profd"
    and p2: "w_pins w (pin args 2) = Some profn"
    and p3: "w_pins w (pin args 3) = Some covmap"
    and nd: "\<not> w_denied w (output_path args)"
    and wf0: "wf_map profc" and wf1: "wf_map profd" and wf3: "wf_map covmap"
    and e0: "entries profc = [(kc, vc)]" and e1: "entries profd = [(kd, vd)]"
    and e3: "entries covmap = [(kh, vh)]"
    and me: "max_entries (info profc) \<le> 1" "max_entries (info profd) \<le> 1"
      "max_entries (info covmap) \<le> 1"
    and nr: "\<not> lookup_refused profc" "\<not> lookup_refused profd" "\<not> lookup_refused covmap"
    and lh: "16 \<le> length vh"
    and mem3: "unat (key_size (info covmap)) + 2 * unat (value_size (info covmap)) \<le> w_avail w"
    and mem1: "unat (key_size (info profd)) + 2 * unat (value_size (info profd)) \<le> w_avail w"
    and mem0: "unat (value_size (info profd)) + unat (key_size (info profc)) +
                 2 * unat (value_size (info profc)) \<le> w_avail w"
  shows "fst (gen args w) = Done"
proof -
  let ?out = "output_path args"
  define w1 where "w1 = w\<lparr>w_fds := (fresh_fd (w_fds w), profc) # w_fds w\<rparr>"
  define w2 where "w2 = w1\<lparr>w_fds := (fresh_fd (w_fds w1), profd) # w_fds w1\<rparr>"
  define w3 where "w3 = w2\<lparr>w_fds := (fresh_fd (w_fds w2), profn) # w_fds w2\<rparr>"
  define w4 where "w4 = w3\<lparr>w_fds := (fresh_fd (w_fds w3), covmap) # w_fds w3\<rparr>"
  have pins4: "w_pins w4 = w_pins w" "w_pins w3 = w_pins w" "w_pins w2 = w_pins w" "w_pins w1 = w_pins w"
    by (simp_all add: w1_def w2_def w3_def w4_def)
  have fr4: "w_avail w4 = w_avail w" "w_denied w4 = w_denied w"
    by (simp_all add: w1_def w2_def w3_def w4_def)
  have s1: "gen_map_info (pin args 0) w = (Inr (info profc), w1)"
    unfolding w1_def by (rule gen_map_info_present [OF p0])
  have s2: "gen_map_info (pin args 1) w1 = (Inr (info profd), w2)"
    unfolding w2_def by (rule gen_map_info_present) (use p1 in \<open>simp add: pins4\<close>)
  have s3: "gen_map_info (pin args 2) w2 = (Inr (info profn), w3)"
    unfolding w3_def by (rule gen_map_info_present) (use p2 in \<open>simp add: pins4\<close>)
  have s4: "gen_map_info (pin args 3) w3 = (Inr (info covmap), w4)"
    unfolding w4_def by (rule gen_map_info_present) (use p3 in \<open>simp add: pins4\<close>)
  define w5 where "w5 = w4\<lparr>w_files := (w_files w4)(?out \<mapsto> [])\<rparr>"
  have fo: "fopen_wb ?out w4 = Some w5"
    using nd by (simp add: fopen_wb_def w5_def fr4)
  define w6 where "w6 = fwrite ?out magic w5"
  have fr6: "w_pins w6 = w_pins w" "w_avail w6 = w_avail w"
    by (simp_all add: w6_def w5_def pins4 fr4 fwrite_frame)
  from e3 wf3 have l3: "length kh = unat (key_size (info covmap))" "length vh = unat (value_size (info covmap))"
    by (simp_all add: wf_map_def)
  from e1 wf1 have l1: "length kd = unat (key_size (info profd))" "length vd = unat (value_size (info profd))"
    by (simp_all add: wf_map_def)
  from e0 wf0 have l0: "length kc = unat (key_size (info profc))" "length vc = unat (value_size (info profc))"
    by (simp_all add: wf_map_def)
  have "w_pins w6 (pin args 3) = Some covmap"
    "unat (key_size (info covmap)) + 2 * unat (value_size (info covmap)) \<le> w_avail w6"
    using p3 mem3 by (simp_all add: fr6)
  from gen_global_data_succeeds [OF this(1) e3 l3 me(3) this(2) nr(3)] fr6
  obtain w7 where g3: "gen_global_data (pin args 3) (info covmap) w6 = (Inr (fresh_block (w_heap w6), Some vh), w7)"
    and h7: "w_heap w7 = (fresh_block (w_heap w6), unat (value_size (info covmap))) # w_heap w6"
    and a7: "w_avail w7 = w_avail w - unat (value_size (info covmap))"
    and pins7: "w_pins w7 = w_pins w" by auto
  define w8 where "w8 =
    fwrite ?out (le64 1) (fwrite ?out (le64 0) (fwrite ?out (le64 0)
     (fwrite ?out (take (4 * 2) (drop value_size_offset (info_bytes (info profn))))
      (fwrite ?out (le64 0) (fwrite ?out (le64 (ucast (value_size (info profc) div 8)))
       (fwrite ?out (le64 0) (fwrite ?out (le64 (ucast (value_size (info profd) div 48)))
        (free (fresh_block (w_heap w6)) (fwrite ?out (le64 (ucast (le_word (take 4 (drop 12 vh)) :: u32) + 1)) w7)))))))))"
  have "w_avail (free (fresh_block (w_heap w6)) (fwrite ?out (le64 (ucast (le_word (take 4 (drop 12 vh)) :: u32) + 1)) w7)) = w_avail w"
    using mem3 by (simp add: free_def fwrite_frame h7 a7 fresh_block_nonzero)
  then have fr8: "w_avail w8 = w_avail w" "w_pins w8 = w_pins w"
    by (simp_all add: w8_def fwrite_frame free_frame pins7)
  have "w_pins w8 (pin args 1) = Some profd"
    "unat (key_size (info profd)) + 2 * unat (value_size (info profd)) \<le> w_avail w8"
    using p1 mem1 by (simp_all add: fr8)
  from gen_global_data_succeeds [OF this(1) e1 l1 me(2) this(2) nr(2)] fr8
  obtain w9 where g1: "gen_global_data (pin args 1) (info profd) w8 = (Inr (fresh_block (w_heap w8), Some vd), w9)"
    and a9: "w_avail w9 = w_avail w - unat (value_size (info profd))"
    and pins9: "w_pins w9 = w_pins w" by auto
  define w10 where "w10 = fwrite_buffer ?out (Some vd) (unat (value_size (info profd))) w9"
  have fr10: "w_avail w10 = w_avail w - unat (value_size (info profd))" "w_pins w10 = w_pins w"
    by (simp_all add: w10_def fwrite_buffer_def fwrite_frame a9 pins9)
  have "w_pins w10 (pin args 0) = Some profc"
    "unat (key_size (info profc)) + 2 * unat (value_size (info profc)) \<le> w_avail w10"
    using p0 mem0 by (simp_all add: fr10)
  from gen_global_data_succeeds [OF this(1) e0 l0 me(1) this(2) nr(1)]
  obtain w11 where g0: "gen_global_data (pin args 0) (info profc) w10 = (Inr (fresh_block (w_heap w10), Some vc), w11)"
    by auto
  have lh': "(length vh < 12 + 4) = False" using lh by simp
  show ?thesis
    unfolding gen_def s1 s2 s3 s4 prod.case sum.case fo option.case Let_def
    apply (fold w6_def)
    unfolding g3 prod.case sum.case option.case lh' if_False
    apply (fold w8_def)
    unfolding g1 prod.case sum.case
    apply (fold w10_def)
    unfolding g0 prod.case sum.case
    by simp
qed

lemma wf_many_entries: "wf_map m \<Longrightarrow> 1 < length (entries m) \<Longrightarrow> 1 < max_entries (info m)"
  by (simp add: wf_map_def word_less_nat_alt)

lemma gen_max_entries:
  assumes p0: "w_pins w (pin args 0) = Some profc"
    and p1: "w_pins w (pin args 1) = Some profd"
    and p2: "w_pins w (pin args 2) = Some profn"
    and p3: "w_pins w (pin args 3) = Some covmap"
    and me: "1 < max_entries (info covmap)"
  shows "\<exists>w'. (if w_denied w (output_path args)
               then gen args w = (Fatal (CouldNotOpenOutput (output_path args)), w') \<and>
                    w_files w' = w_files w
               else gen args w = (Fatal (CouldNotGetGlobalData (pin args 3)), w') \<and>
                    w_files w' (output_path args) = Some magic)"
proof -
  let ?out = "output_path args"
  define w1 where "w1 = w\<lparr>w_fds := (fresh_fd (w_fds w), profc) # w_fds w\<rparr>"
  define w2 where "w2 = w1\<lparr>w_fds := (fresh_fd (w_fds w1), profd) # w_fds w1\<rparr>"
  define w3 where "w3 = w2\<lparr>w_fds := (fresh_fd (w_fds w2), profn) # w_fds w2\<rparr>"
  define w4 where "w4 = w3\<lparr>w_fds := (fresh_fd (w_fds w3), covmap) # w_fds w3\<rparr>"
  have pins4: "w_pins w4 = w_pins w" "w_pins w3 = w_pins w" "w_pins w2 = w_pins w" "w_pins w1 = w_pins w"
    by (simp_all add: w1_def w2_def w3_def w4_def)
  have fr4: "w_files w4 = w_files w" "w_denied w4 = w_denied w"
    by (simp_all add: w1_def w2_def w3_def w4_def)
  have s1: "gen_map_info (pin args 0) w = (Inr (info profc), w1)"
    unfolding w1_def by (rule gen_map_info_present [OF p0])
  have s2: "gen_map_info (pin args 1) w1 = (Inr (info profd), w2)"
    unfolding w2_def by (rule gen_map_info_present) (use p1 in \<open>simp add: pins4\<close>)
  have s3: "gen_map_info (pin args 2) w2 = (Inr (info profn), w3)"
    unfolding w3_def by (rule gen_map_info_present) (use p2 in \<open>simp add: pins4\<close>)
  have s4: "gen_map_info (pin args 3) w3 = (Inr (info covmap), w4)"
    unfolding w4_def by (rule gen_map_info_present) (use p3 in \<open>simp add: pins4\<close>)
  show ?thesis
  proof (cases "w_denied w ?out")
    case True
    then have "fopen_wb ?out w4 = None" by (simp add: fopen_wb_def fr4)
    then have "gen args w = (Fatal (CouldNotOpenOutput ?out), w4)"
      unfolding gen_def s1 s2 s3 s4 prod.case sum.case by simp
    with True fr4 show ?thesis by auto
  next
    case False
    define w5 where "w5 = w4\<lparr>w_files := (w_files w4)(?out \<mapsto> [])\<rparr>"
    have fo: "fopen_wb ?out w4 = Some w5"
      using False by (simp add: fopen_wb_def w5_def fr4)
    define w6 where "w6 = fwrite ?out magic w5"
    have f6: "w_files w6 ?out = Some magic"
      by (simp add: w6_def w5_def)
    from gen_global_data_max_entries [OF me] obtain w7
      where g3: "gen_global_data (pin args 3) (info covmap) w6 =
                   (Inl (Fatal (CouldNotGetGlobalData (pin args 3))), w7)" by blast
    have f7: "w_files w7 ?out = Some magic"
      using gen_global_data_frame [OF g3] f6 by simp
    have "gen args w = (Fatal (CouldNotGetGlobalData (pin args 3)), w7)"
      unfolding gen_def s1 s2 s3 s4 prod.case sum.case fo option.case Let_def
      apply (fold w6_def)
      unfolding g3 prod.case sum.case
      by (rule refl)
    with False f7 show ?thesis by auto
  qed
qed


text \<open>The same without the other three maps: whatever \<^verbatim>\<open>gen\<close> learns about them, it
  stops before the version.\<close>

lemma gen_max_entries_any:
  assumes p3: "w_pins w (pin args 3) = Some covmap"
    and me: "1 < max_entries (info covmap)"
  shows "\<exists>d w'. gen args w = (Fatal d, w') \<and>
           (w_files w' (output_path args) = w_files w (output_path args) \<or>
            w_files w' (output_path args) = Some magic)"
proof -
  let ?out = "output_path args"
  obtain r0 w1 where s1: "gen_map_info (pin args 0) w = (r0, w1)"
    by (cases "gen_map_info (pin args 0) w")
  note f1 = gen_map_info_frame [OF s1]
  show ?thesis
  proof (cases r0)
    case (Inl d)
    have "gen args w = (Fatal d, w1)"
      unfolding gen_def s1 Inl prod.case sum.case by (rule refl)
    with f1 show ?thesis by simp
  next
    case i0: (Inr profc_info)
    obtain r1 w2 where s2: "gen_map_info (pin args 1) w1 = (r1, w2)"
      by (cases "gen_map_info (pin args 1) w1")
    note f2 = gen_map_info_frame [OF s2]
    show ?thesis
    proof (cases r1)
      case (Inl d)
      have "gen args w = (Fatal d, w2)"
        unfolding gen_def s1 i0 s2 Inl prod.case sum.case by (rule refl)
      with f1 f2 show ?thesis by simp
    next
      case i1: (Inr profd_info)
      obtain r2 w3 where s3: "gen_map_info (pin args 2) w2 = (r2, w3)"
        by (cases "gen_map_info (pin args 2) w2")
      note f3 = gen_map_info_frame [OF s3]
      show ?thesis
      proof (cases r2)
        case (Inl d)
        have "gen args w = (Fatal d, w3)"
          unfolding gen_def s1 i0 s2 i1 s3 Inl prod.case sum.case by (rule refl)
        with f1 f2 f3 show ?thesis by simp
      next
        case i2: (Inr profn_info)
        define w4 where "w4 = w3\<lparr>w_fds := (fresh_fd (w_fds w3), covmap) # w_fds w3\<rparr>"
        have p3': "w_pins w3 (pin args 3) = Some covmap" using p3 f1 f2 f3 by simp
        have s4: "gen_map_info (pin args 3) w3 = (Inr (info covmap), w4)"
          unfolding w4_def by (rule gen_map_info_present [OF p3'])
        have fr4: "w_files w4 = w_files w" "w_denied w4 = w_denied w"
          using f1 f2 f3 by (simp_all add: w4_def)
        show ?thesis
        proof (cases "w_denied w ?out")
          case True
          then have "fopen_wb ?out w4 = None" by (simp add: fopen_wb_def fr4)
          then have "gen args w = (Fatal (CouldNotOpenOutput ?out), w4)"
            unfolding gen_def s1 i0 s2 i1 s3 i2 s4 prod.case sum.case by simp
          with fr4 show ?thesis by simp
        next
          case False
          define w5 where "w5 = w4\<lparr>w_files := (w_files w4)(?out \<mapsto> [])\<rparr>"
          have fo: "fopen_wb ?out w4 = Some w5"
            using False by (simp add: fopen_wb_def w5_def fr4)
          define w6 where "w6 = fwrite ?out magic w5"
          have f6: "w_files w6 ?out = Some magic"
            by (simp add: w6_def w5_def)
          from gen_global_data_max_entries [OF me] obtain w7
            where g3: "gen_global_data (pin args 3) (info covmap) w6 =
                         (Inl (Fatal (CouldNotGetGlobalData (pin args 3))), w7)" by blast
          have f7: "w_files w7 ?out = Some magic"
            using gen_global_data_frame [OF g3] f6 by simp
          have "gen args w = (Fatal (CouldNotGetGlobalData (pin args 3)), w7)"
            unfolding gen_def s1 i0 s2 i1 s3 i2 s4 prod.case sum.case fo option.case Let_def
            apply (fold w6_def)
            unfolding g3 prod.case sum.case
            by (rule refl)
          with f7 show ?thesis by simp
        qed
      qed
    qed
  qed
qed

lemma ex_pinned_pins:
  "w_pins ex_pinned (pin ex_args 0) = Some ex_profc"
  "w_pins ex_pinned (pin ex_args 1) = Some ex_profd"
  "w_pins ex_pinned (pin ex_args 2) = Some ex_profn"
  "w_pins ex_pinned (pin ex_args 3) = Some ex_covmap"
  by (simp_all add: ex_pins ex_pinned_def)

lemma ex_gen_Done: "fst (gen ex_args ex_pinned) = Done"
proof (rule gen_succeeds [OF ex_pinned_pins _ ex_wf(1,2,4)])
  show "entries ex_profc = [(ex_key, [5, 0, 0, 0, 0, 0, 0, 0])]" by (simp add: ex_profc_def)
  show "entries ex_profd = [(ex_key, replicate 48 7)]" by (simp add: ex_profd_def)
  show "entries ex_covmap = [(ex_key, [0, 0, 0, 0, 0, 0, 0, 0, 0, 0, 0, 0, 3, 0, 0, 0])]"
    by (simp add: ex_covmap_def)
  show "16 \<le> length [0 :: byte, 0, 0, 0, 0, 0, 0, 0, 0, 0, 0, 0, 3, 0, 0, 0]" by simp
qed (simp_all add: ex_pinned_def ex_empty_def ex_profc_def ex_profd_def ex_covmap_def)

lemma le_word_take_example:
  "(le_word (take 4 (drop 12 [0, 0, 0, 0, 0, 0, 0, 0, 0, 0, 0, 0, 3, 0, 0, 0 :: byte])) :: u32) = 3"
  by (simp add: le_word_def)

text \<open>
  Claim C2. When \<^verbatim>\<open>gen\<close> runs over four pinned maps and does not stop at the output file
  or at the value of the coverage mapping header, that map has one entry, with a value of
  at least 16 bytes, and bytes 8 to 15 of the output file are the 64-bit little-endian
  encoding of the unsigned 32-bit number in bytes 12 to 15 of the value, plus one (the sum
  taken in 64 bits, so it never wraps); the number 3 gives the version 4.
\<close>

theorem gen_version_field:
  assumes r: "gen args w = (res, w')"
    and p0: "w_pins w (pin args 0) = Some profc"
    and p1: "w_pins w (pin args 1) = Some profd"
    and p2: "w_pins w (pin args 2) = Some profn"
    and p3: "w_pins w (pin args 3) = Some covmap"
    and wf3: "wf_map covmap"
    and n1: "res \<noteq> Fatal (CouldNotOpenOutput (output_path args))"
    and n2: "res \<noteq> Fatal (CouldNotGetGlobalData (pin args 3))"
    and n3: "\<forall>f. res \<noteq> Crash f"
  shows "\<exists>kh vh file. entries covmap = [(kh, vh)] \<and> 16 \<le> length vh \<and>
           w_files w' (output_path args) = Some file \<and>
           take 8 (drop 8 file) = le64 (ucast (le_word (take 4 (drop 12 vh)) :: u32) + 1) \<and>
           unat (ucast (le_word (take 4 (drop 12 vh)) :: u32) + (1 :: u64)) =
             unat (le_word (take 4 (drop 12 vh)) :: u32) + 1 \<and>
           (le_word (take 4 (drop 12 vh)) = (3 :: u32) \<longrightarrow> take 8 (drop 8 file) = le64 4)"
proof -
  from gen_header [OF r p0 p1 p2 p3 wf3] n1 n2 n3 obtain kh vh w8
    where eh: "entries covmap = [(kh, vh)]" and lh: "\<not> length vh < 16"
      and f8: "w_files w8 (output_path args) =
               Some (profraw_header vh (info profd) (info profc) (info profn))"
      and t: "(res, w') =
              (case gen_global_data (pin args 1) (info profd) w8 of
                 (Inl r, w) \<Rightarrow> (r, w)
               | (Inr (profd_ptr, profd_data), w) \<Rightarrow>
                 (case gen_global_data (pin args 0) (info profc)
                    (fwrite_buffer (output_path args) profd_data (unat (value_size (info profd))) w) of
                    (Inl r, w) \<Rightarrow> (r, w)
                  | (Inr (profc_ptr, profc_data), w) \<Rightarrow>
                      (Done, fwrite_buffer (output_path args) profc_data
                               (unat (value_size (info profc))) w)))"
    by (auto split: if_splits)
  from gen_sections_append [OF t f8] obtain rest where
    f: "w_files w' (output_path args) =
          Some (profraw_header vh (info profd) (info profc) (info profn) @ rest)" by blast
  have v: "take 8 (drop 8 (profraw_header vh (info profd) (info profc) (info profn) @ rest)) =
      le64 (ucast (le_word (take 4 (drop 12 vh)) :: u32) + 1)" by (rule version_field)
  show ?thesis
    using eh lh f v unat_version [of "le_word (take 4 (drop 12 vh))"]
    by (intro exI [of _ kh] exI [of _ vh]
        exI [of _ "profraw_header vh (info profd) (info profc) (info profn) @ rest"]) auto
qed

theorem gen_version_field_witness:
  "take 8 (drop 8 (the (w_files (snd (gen ex_args ex_pinned)) (output_path ex_args)))) = le64 4"
proof -
  have r: "gen ex_args ex_pinned = (fst (gen ex_args ex_pinned), snd (gen ex_args ex_pinned))"
    by simp
  have n: "fst (gen ex_args ex_pinned) \<noteq> Fatal (CouldNotOpenOutput (output_path ex_args))"
    "fst (gen ex_args ex_pinned) \<noteq> Fatal (CouldNotGetGlobalData (pin ex_args 3))"
    "\<forall>f. fst (gen ex_args ex_pinned) \<noteq> Crash f"
    by (simp_all add: ex_gen_Done)
  from gen_version_field [OF r ex_pinned_pins ex_wf(4) n]
  show ?thesis by (auto simp: ex_covmap_def le_word_example)
qed

text \<open>
  Claim C7. A coverage mapping header that holds more than one entry declares more than
  one, so \<^verbatim>\<open>get_global_data\<close> returns -1 for it without touching the buffer; \<^verbatim>\<open>gen\<close>
  then ends with a diagnostic, whatever the other three paths hold, the output file either
  untouched or holding the magic number alone; with the four maps pinned and the output file writable the diagnostic is
  \<^verbatim>\<open>could not get global data from map\<close> for the header, after the magic number and
  before any version.
\<close>

theorem gen_header_many_entries:
  assumes p3: "w_pins w (pin args 3) = Some covmap"
    and wf3: "wf_map covmap"
    and many: "1 < length (entries covmap)"
  shows "(\<forall>fd data w0. get_global_data fd (info covmap) data w0 = Inr (- 1, data, close fd w0)) \<and>
         (\<exists>d w'. gen args w = (Fatal d, w') \<and>
            (w_files w' (output_path args) = w_files w (output_path args) \<or>
             w_files w' (output_path args) = Some magic)) \<and>
         ((\<forall>p < 4. w_pins w (pin args p) \<noteq> None) \<and> \<not> w_denied w (output_path args) \<longrightarrow>
            (\<exists>w'. gen args w = (Fatal (CouldNotGetGlobalData (pin args 3)), w') \<and>
               w_files w' (output_path args) = Some magic))"
proof -
  from wf3 many have me: "1 < max_entries (info covmap)" by (rule wf_many_entries)
  have a: "\<forall>fd data w0. get_global_data fd (info covmap) data w0 = Inr (- 1, data, close fd w0)"
    using get_global_data_max_entries [OF me] by blast
  have c: "\<exists>w'. (if w_denied w (output_path args)
               then gen args w = (Fatal (CouldNotOpenOutput (output_path args)), w') \<and>
                    w_files w' = w_files w
               else gen args w = (Fatal (CouldNotGetGlobalData (pin args 3)), w') \<and>
                    w_files w' (output_path args) = Some magic)"
    if all: "\<forall>p < 4. w_pins w (pin args p) \<noteq> None"
  proof -
    from all have "w_pins w (pin args 0) \<noteq> None" "w_pins w (pin args 1) \<noteq> None"
      "w_pins w (pin args 2) \<noteq> None" by simp_all
    then obtain m0 m1 m2 where "w_pins w (pin args 0) = Some m0" "w_pins w (pin args 1) = Some m1"
      "w_pins w (pin args 2) = Some m2" by auto
    from gen_max_entries [OF this p3 me] show ?thesis .
  qed
  have b: "\<exists>d w'. gen args w = (Fatal d, w') \<and>
            (w_files w' (output_path args) = w_files w (output_path args) \<or>
             w_files w' (output_path args) = Some magic)"
    by (rule gen_max_entries_any [OF p3 me])
  from a b c show ?thesis by (auto split: if_splits)
qed

theorem gen_header_many_entries_witness:
  "\<exists>w'. gen ex_args ex_pinned2 = (Fatal (CouldNotGetGlobalData (pin ex_args 3)), w') \<and>
      w_files w' (output_path ex_args) = Some magic"
proof -
  have p: "w_pins ex_pinned2 (pin ex_args 3) = Some ex_covmap2"
    by (simp add: ex_pinned2_def ex_pins)
  have wf: "wf_map ex_covmap2" by (simp add: wf_map_def ex_covmap2_def ex_key_def)
  have many: "1 < length (entries ex_covmap2)" by (simp add: ex_covmap2_def)
  have all: "\<forall>p < 4. w_pins ex_pinned2 (pin ex_args p) \<noteq> None"
  proof (intro allI impI)
    fix p :: nat assume "p < 4"
    then have "p = 0 \<or> p = 1 \<or> p = 2 \<or> p = 3" by arith
    then show "w_pins ex_pinned2 (pin ex_args p) \<noteq> None"
      by (auto simp: ex_pinned2_def ex_pinned_def ex_pins)
  qed
  have nd: "\<not> w_denied ex_pinned2 (output_path ex_args)"
    by (simp add: ex_pinned2_def ex_pinned_def ex_empty_def)
  from gen_header_many_entries [OF p wf many] all nd show ?thesis by blast
qed

text \<open>
  Claim C1, at the four pinned maps of the program \<^verbatim>\<open>p\<close>: \<^verbatim>\<open>gen\<close> returns 0 and the file
  is the magic number, the version 4, one function record, padding, one counter, padding,
  eight bytes for the size of the names, two zeroed deltas, the tag 1, the value of the
  data map and the value of the counters map. The eight bytes for the size of the names
  are the value size of the names map (16) followed by its declared number of entries
  (1): they are neither that size written twice nor that size in 64 bits.
\<close>

theorem gen_names_size_slot:
  "fst (gen ex_args ex_pinned) = Done \<and>
   w_files (snd (gen ex_args ex_pinned)) (output_path ex_args) =
     Some (magic @ le64 4 @ le64 1 @ le64 0 @ le64 1 @ le64 0 @
           [16, 0, 0, 0, 1, 0, 0, 0] @ le64 0 @ le64 0 @ le64 1 @
           replicate 48 7 @ [5, 0, 0, 0, 0, 0, 0, 0]) \<and>
   [16, 0, 0, 0, 1, 0, 0, 0] =
     le32 (value_size (info ex_profn)) @ le32 (max_entries (info ex_profn)) \<and>
   [16, 0, 0, 0, 1, 0, 0, 0] \<noteq>
     le32 (value_size (info ex_profn)) @ le32 (value_size (info ex_profn)) \<and>
   [16, 0, 0, 0, 1, 0, 0, 0] \<noteq> le64 (ucast (value_size (info ex_profn)))"
proof -
  have r: "gen ex_args ex_pinned = (Done, snd (gen ex_args ex_pinned))"
    using ex_gen_Done by (metis prod.collapse)
  from gen_Done_file [OF r ex_pinned_pins ex_wf(1,2,4)]
  have "w_files (snd (gen ex_args ex_pinned)) (output_path ex_args) =
      Some (profraw_header [0, 0, 0, 0, 0, 0, 0, 0, 0, 0, 0, 0, 3, 0, 0, 0]
              (info ex_profd) (info ex_profc) (info ex_profn) @
            replicate 48 7 @ [5, 0, 0, 0, 0, 0, 0, 0])"
    by (auto simp: ex_profc_def ex_profd_def ex_covmap_def)
  moreover have "profraw_header [0, 0, 0, 0, 0, 0, 0, 0, 0, 0, 0, 0, 3, 0, 0, 0]
              (info ex_profd) (info ex_profc) (info ex_profn) =
       magic @ le64 4 @ le64 1 @ le64 0 @ le64 1 @ le64 0 @
           [16, 0, 0, 0, 1, 0, 0, 0] @ le64 0 @ le64 0 @ le64 1"
    unfolding profraw_header_def le_word_take_example
    by (simp add: ex_profc_def ex_profd_def ex_profn_def le32_examples)
  moreover have "le64 (ucast (value_size (info ex_profn))) = [16, 0, 0, 0, 0, 0, 0, 0]"
    by (simp add: ex_profn_def le64_def upt_rec)
  ultimately show ?thesis
    using ex_gen_Done by (simp add: ex_profn_def le32_examples)
qed

section \<open>The tracer\<close>

text \<open>An iteration whose resumes, waits and first probe succeed.\<close>

lemma run_iter_probes:
  assumes "ptrace_entry e \<noteq> - 1" "waitpid_entry e \<noteq> - 1" "getregs_entry e = Some regs"
    "ptrace_exit e \<noteq> - 1" "waitpid_exit e \<noteq> - 1"
  shows "run_iter args e st =
    (let st1 = (if (ucast (orig_rax regs) :: u32) = SYS_bpf \<and> (ucast (rdi regs) :: u32) = BPF_MAP_CREATE
                then st\<lparr>is_map := 1\<rparr> else st) in
     case getregs_exit e of
       Inl errno \<Rightarrow> if errno = ESRCH then (Some (Exited (ucast (rdi regs))), st1)
                     else (Some (Fatal RunErrno), st1)
     | Inr regs' \<Rightarrow>
         if is_map st1 \<noteq> 0 \<and> rax regs' \<noteq> 0 then
           (let st2 = st1\<lparr>calls := calls st1 @ [Pidfd_open]\<rparr> in
            if pidfd_open_ret e < 0 then (None, st2) else
            let st3 = st2\<lparr>calls := calls st2 @ [Pidfd_getfd (pidfd_open_ret e) (rax regs')],
                          world_of := snd (pidfd_getfd e (world_of st2))\<rparr> in
            if fst (pidfd_getfd e (world_of st2)) < 0 then (None, st3) else
            let curfd = fst (pidfd_getfd e (world_of st2));
                ei = bpf_obj_get_info_by_fd curfd zero_info (world_of st3);
                st4 = st3\<lparr>calls := calls st3 @ [Obj_get_info curfd]\<rparr> in
            if fst ei = 0 \<and> length (name (snd ei)) > 0 then
              (case get_pin_path args (map_suffix (name (snd ei))) [] of
                 Inl f \<Rightarrow> (Some (Crash f), st4)
               | Inr (found, pin_path) \<Rightarrow>
                   if found \<noteq> 0 then
                     (let ep = bpf_obj_pin curfd pin_path (world_of st4);
                          st5 = st4\<lparr>calls := calls st4 @ [Obj_pin curfd pin_path], world_of := snd ep\<rparr>
                      in if fst ep \<noteq> 0 then (Some (Fatal CouldNotPinMap), st5) else (None, st5))
                   else (None, st4))
            else (None, st4))
         else (None, st1))"
  using assms
  by (simp add: run_iter_def Let_def case_prod_beta split: sum.splits)

lemma run_iter_early:
  "ptrace_entry e = - 1 \<Longrightarrow> fst (run_iter args e st) = Some (Fatal RunErrno)"
  "waitpid_entry e = - 1 \<Longrightarrow> fst (run_iter args e st) = Some (Fatal RunErrno)"
  "getregs_entry e = None \<Longrightarrow> fst (run_iter args e st) = Some (Fatal RunErrno)"
  by (simp_all add: run_iter_def)

lemma run_iter_late:
  assumes "ptrace_entry e \<noteq> - 1" "waitpid_entry e \<noteq> - 1" "getregs_entry e = Some regs"
  shows "ptrace_exit e = - 1 \<Longrightarrow> fst (run_iter args e st) = Some (Fatal RunErrno)"
    and "waitpid_exit e = - 1 \<Longrightarrow> fst (run_iter args e st) = Some (Fatal RunErrno)"
  using assms by (simp_all add: run_iter_def Let_def)

lemma run_iter_probe_failed:
  assumes "ptrace_entry e \<noteq> - 1" "waitpid_entry e \<noteq> - 1" "getregs_entry e = Some regs"
    "ptrace_exit e \<noteq> - 1" "waitpid_exit e \<noteq> - 1" "getregs_exit e = Inl errno"
  shows "fst (run_iter args e st) =
           Some (if errno = ESRCH then Exited (ucast (rdi regs)) else Fatal RunErrno)"
  unfolding run_iter_probes [OF assms(1-5)] assms(6) by (simp add: Let_def)

lemma run_iter_probe_ok:
  assumes "ptrace_entry e \<noteq> - 1" "waitpid_entry e \<noteq> - 1" "getregs_entry e = Some regs"
    "ptrace_exit e \<noteq> - 1" "waitpid_exit e \<noteq> - 1" "getregs_exit e = Inr regs'"
  shows "fst (run_iter args e st) \<noteq> Some (Exited c)"
  unfolding run_iter_probes [OF assms(1-5)] assms(6)
  by (simp add: Let_def split: sum.splits prod.splits)

lemma run_iter_Exited_iff:
  "fst (run_iter args e st) = Some (Exited c) \<longleftrightarrow>
     ptrace_entry e \<noteq> - 1 \<and> waitpid_entry e \<noteq> - 1 \<and> ptrace_exit e \<noteq> - 1 \<and>
     waitpid_exit e \<noteq> - 1 \<and> getregs_exit e = Inl ESRCH \<and>
     (\<exists>regs. getregs_entry e = Some regs \<and> c = ucast (rdi regs))"
proof (cases "ptrace_entry e \<noteq> - 1 \<and> waitpid_entry e \<noteq> - 1 \<and> getregs_entry e \<noteq> None \<and>
    ptrace_exit e \<noteq> - 1 \<and> waitpid_exit e \<noteq> - 1")
  case True
  then obtain regs where regs: "getregs_entry e = Some regs" by auto
  show ?thesis
  proof (cases "getregs_exit e")
    case (Inl errno)
    from True regs Inl have "fst (run_iter args e st) =
           Some (if errno = ESRCH then Exited (ucast (rdi regs)) else Fatal RunErrno)"
      using run_iter_probe_failed [of e regs errno args st] by simp
    with True regs Inl show ?thesis by auto
  next
    case (Inr regs')
    from True regs Inr have "fst (run_iter args e st) \<noteq> Some (Exited c)"
      using run_iter_probe_ok [of e regs regs' args st c] by simp
    with Inr show ?thesis by simp
  qed
next
  case False
  then have "fst (run_iter args e st) = Some (Fatal RunErrno)"
    using run_iter_early [of e args st] run_iter_late [of e _ args st] by fastforce
  with False show ?thesis by auto
qed

lemma run_iter_Fatal:
  assumes "ptrace_entry e = - 1 \<or> waitpid_entry e = - 1 \<or> getregs_entry e = None \<or>
   ptrace_exit e = - 1 \<or> waitpid_exit e = - 1 \<or>
   (\<exists>errno. getregs_exit e = Inl errno \<and> errno \<noteq> ESRCH)"
  shows "fst (run_iter args e st) = Some (Fatal RunErrno)"
proof (cases "ptrace_entry e \<noteq> - 1 \<and> waitpid_entry e \<noteq> - 1 \<and> getregs_entry e \<noteq> None \<and>
    ptrace_exit e \<noteq> - 1 \<and> waitpid_exit e \<noteq> - 1")
  case True
  then obtain regs where regs: "getregs_entry e = Some regs" by auto
  from True assms obtain errno where e: "getregs_exit e = Inl errno" "errno \<noteq> ESRCH" by auto
  from True regs e have "fst (run_iter args e st) =
           Some (if errno = ESRCH then Exited (ucast (rdi regs)) else Fatal RunErrno)"
    using run_iter_probe_failed [of e regs errno args st] by simp
  with e show ?thesis by simp
next
  case False
  then show ?thesis
    using run_iter_early [of e args st] run_iter_late [of e _ args st] by fastforce
qed

lemma run_loop_Exited:
  "fst (run_loop args es st) = Some (Exited c) \<Longrightarrow>
     \<exists>e \<in> set es. \<exists>regs. getregs_entry e = Some regs \<and> getregs_exit e = Inl ESRCH \<and>
        c = ucast (rdi regs)"
proof (induction es arbitrary: st)
  case Nil
  then show ?case by simp
next
  case (Cons e es)
  obtain r st' where it: "run_iter args e st = (r, st')" by (cases "run_iter args e st")
  show ?case
  proof (cases r)
    case None
    with Cons.prems it have "fst (run_loop args es st') = Some (Exited c)" by simp
    from Cons.IH [OF this] show ?thesis by auto
  next
    case (Some x)
    with Cons.prems it have "fst (run_iter args e st) = Some (Exited c)" by simp
    then show ?thesis unfolding run_iter_Exited_iff by auto
  qed
qed

text \<open>
  Claim C4 as stated fails: when \<^verbatim>\<open>exit_group(7)\<close> ends the traced program, the registers
  captured last hold 7 in \<^verbatim>\<open>rdi\<close> and \<^verbatim>\<open>-ENOSYS\<close> in the return register \<^verbatim>\<open>rax\<close>; the tracer
  exits with the former, not with the return register.
\<close>

theorem run_exit_status_counterexample:
  "fst (run ex_args [ex_exit] ex_empty) =
     Some (Exited (ucast (rdi (the (getregs_entry ex_exit))))) \<and>
   fst (run ex_args [ex_exit] ex_empty) \<noteq>
     Some (Exited (ucast (rax (the (getregs_entry ex_exit)))))"
  by (simp add: run_def run_iter_def ex_exit_def ESRCH_def Let_def)

text \<open>
  Claim C4, as amended. An iteration ends the tracer with \<^verbatim>\<open>exit(status)\<close> exactly when
  the two resumes, the two waits and the first register probe succeed and the second
  probe fails with \<^verbatim>\<open>ESRCH\<close>; the status is then the register \<^verbatim>\<open>rdi\<close> of the registers
  captured last, at the entry of the system call (the first argument of the call, the
  status the traced program passed to its exit call), cut to 32 bits. Any other failure of
  a resume, a wait or a register probe ends the tool with a diagnostic. A run that ends
  with \<^verbatim>\<open>exit(status)\<close> took the status from such a stop.
\<close>

theorem run_exit_status:
  "(fst (run_iter args e st) = Some (Exited c) \<longleftrightarrow>
      ptrace_entry e \<noteq> - 1 \<and> waitpid_entry e \<noteq> - 1 \<and> ptrace_exit e \<noteq> - 1 \<and>
      waitpid_exit e \<noteq> - 1 \<and> getregs_exit e = Inl ESRCH \<and>
      (\<exists>regs. getregs_entry e = Some regs \<and> c = ucast (rdi regs))) \<and>
   (ptrace_entry e = - 1 \<or> waitpid_entry e = - 1 \<or> getregs_entry e = None \<or>
    ptrace_exit e = - 1 \<or> waitpid_exit e = - 1 \<or>
    (\<exists>errno. getregs_exit e = Inl errno \<and> errno \<noteq> ESRCH) \<longrightarrow>
      fst (run_iter args e st) = Some (Fatal RunErrno)) \<and>
   (fst (run args es w) = Some (Exited c) \<longrightarrow>
      (\<exists>e \<in> set es. \<exists>regs. getregs_entry e = Some regs \<and> getregs_exit e = Inl ESRCH \<and>
         c = ucast (rdi regs)))"
  using run_iter_Exited_iff [of args e st c] run_iter_Fatal [of e args st]
    run_loop_Exited [of args es _ c]
  unfolding run_def by blast

theorem run_exit_status_witness:
  "fst (run_iter ex_args ex_exit st0) = Some (Exited 7) \<and>
   fst (run_iter ex_args (ex_exit\<lparr>getregs_exit := Inl 1\<rparr>) st0) = Some (Fatal RunErrno)"
  using run_exit_status [of ex_args ex_exit st0 7 "[]" ex_empty]
    run_exit_status [of ex_args "ex_exit\<lparr>getregs_exit := Inl 1\<rparr>" st0 7 "[]" ex_empty]
  by (simp add: ex_exit_def ESRCH_def)



lemma ex_suffix: "map_suffix ''p.profc'' = Some ''profc''"
  by (simp add: map_suffix_def strtok_def)

text \<open>No iteration clears \<^verbatim>\<open>is_map\<close>: it becomes 1 at a map creation and keeps its value
  at any other stop.\<close>

lemma run_iter_is_map:
  "is_map (snd (run_iter args e st)) =
     (if ptrace_entry e \<noteq> - 1 \<and> waitpid_entry e \<noteq> - 1 \<and>
         (\<exists>regs. getregs_entry e = Some regs \<and> (ucast (orig_rax regs) :: u32) = SYS_bpf \<and>
            (ucast (rdi regs) :: u32) = BPF_MAP_CREATE)
      then 1 else is_map st)"
proof (cases "ptrace_entry e \<noteq> - 1 \<and> waitpid_entry e \<noteq> - 1 \<and> getregs_entry e \<noteq> None")
  case False
  then show ?thesis by (auto simp: run_iter_def)
next
  case True
  then obtain regs where regs: "getregs_entry e = Some regs" by auto
  define st1 where "st1 = (if (ucast (orig_rax regs) :: u32) = SYS_bpf \<and>
      (ucast (rdi regs) :: u32) = BPF_MAP_CREATE then st\<lparr>is_map := 1\<rparr> else st)"
  have goal: "is_map st1 = (if (ucast (orig_rax regs) :: u32) = SYS_bpf \<and>
      (ucast (rdi regs) :: u32) = BPF_MAP_CREATE then 1 else is_map st)"
    by (simp add: st1_def)
  have "is_map (snd (run_iter args e st)) = is_map st1"
  proof (cases "ptrace_exit e \<noteq> - 1 \<and> waitpid_exit e \<noteq> - 1")
    case False
    with True regs show ?thesis
      by (auto simp: run_iter_def Let_def st1_def)
  next
    case ok: True
    from True ok regs have p: "ptrace_entry e \<noteq> - 1" "waitpid_entry e \<noteq> - 1"
      "getregs_entry e = Some regs" "ptrace_exit e \<noteq> - 1" "waitpid_exit e \<noteq> - 1" by simp_all
    show ?thesis
      unfolding run_iter_probes [OF p, of args st, folded st1_def]
      by (simp add: Let_def split: sum.splits prod.splits)
  qed
  with goal True regs show ?thesis by simp
qed

lemma run_loop_is_map:
  "is_map st \<noteq> 0 \<Longrightarrow> is_map (snd (run_loop args es st)) \<noteq> 0"
proof (induction es arbitrary: st)
  case Nil
  then show ?case by simp
next
  case (Cons e es)
  obtain r st' where it: "run_iter args e st = (r, st')" by (cases "run_iter args e st")
  from Cons.prems run_iter_is_map [of args e st] it have k: "is_map st' \<noteq> 0"
    by (auto split: if_splits)
  show ?case
  proof (cases r)
    case None
    with it Cons.IH [OF k] show ?thesis by simp
  next
    case (Some x)
    with it k show ?thesis by simp
  qed
qed

text \<open>
  Claim C3, at two stops. On its own, \<^verbatim>\<open>write(1, ...)\<close> returning 3 leaves \<^verbatim>\<open>is_map\<close> at 0 and
  the tracer makes no call. After \<^verbatim>\<open>bpf(BPF_MAP_CREATE, ...)\<close>, which pins the counters map,
  \<^verbatim>\<open>is_map\<close> is still 1 at the same \<^verbatim>\<open>write\<close>: the tracer takes descriptor 3 out of the
  traced program again, tries to pin it a second time and ends with
  \<^verbatim>\<open>could not pin map\<close>.
\<close>

theorem run_is_map_sticky:
  "fst (run ex_args [ex_write] ex_empty) = None \<and>
   is_map (snd (run ex_args [ex_write] ex_empty)) = 0 \<and>
   calls (snd (run ex_args [ex_write] ex_empty)) = [] \<and>
   fst (run ex_args [ex_create] ex_empty) = None \<and>
   is_map (snd (run ex_args [ex_create] ex_empty)) = 1 \<and>
   is_map (snd (run ex_args [ex_create, ex_write] ex_empty)) = 1 \<and>
   calls (snd (run ex_args [ex_create, ex_write] ex_empty)) =
     calls (snd (run ex_args [ex_create] ex_empty)) @
     [Pidfd_open, Pidfd_getfd 6 3, Obj_get_info 7, Obj_pin 7 (pin ex_args 0)] \<and>
   fst (run ex_args [ex_create, ex_write] ex_empty) = Some (Fatal CouldNotPinMap)"
  by (simp add: run_def run_iter_def ex_create_def ex_write_def SYS_bpf_def BPF_MAP_CREATE_def Let_def
      pidfd_getfd_def bpf_obj_get_info_by_fd_def ex_empty_def ex_profc_def ex_suffix
      get_pin_path_def strncmp_eq_def ex_pins bpf_obj_pin_def)

lemma run_iter_ignored:
  assumes "ptrace_entry e \<noteq> - 1" "waitpid_entry e \<noteq> - 1" "getregs_entry e = Some regs"
    "ptrace_exit e \<noteq> - 1" "waitpid_exit e \<noteq> - 1" "getregs_exit e = Inr regs'"
    and m: "remote_obj e = Some m" and s: "map_suffix (name (info m)) = Some s"
    and no: "\<forall>t \<in> set tokens. \<not> (\<exists>r. s = t @ r)"
  shows "fst (run_iter args e st) = None \<and>
         w_pins (world_of (snd (run_iter args e st))) = w_pins (world_of st)"
  unfolding run_iter_probes [OF assms(1-5)] assms(6)
  by (simp add: Let_def pidfd_getfd_def m bpf_obj_get_info_by_fd_def s get_pin_path_none [OF no])

text \<open>
  Claim C6 as stated fails twice: \<^verbatim>\<open>profcounters\<close> is none of the four tokens and resolves
  to the path of the counters; a map name without a separator, \<^verbatim>\<open>events\<close>, has no second
  token, \<^verbatim>\<open>strtok\<close> returns \<^verbatim>\<open>NULL\<close>, and \<^verbatim>\<open>strncmp\<close> reads through it.
\<close>

theorem get_pin_path_counterexample:
  "get_pin_path ex_args (Some ''profcounters'') [] = Inr (1, pin ex_args 0) \<and>
   ''profcounters'' \<notin> set tokens \<and>
   map_suffix (name (info ex_events)) = None \<and>
   get_pin_path ex_args (map_suffix (name (info ex_events))) [] = Inl NullDeref \<and>
   fst (run ex_args [ex_create_of ex_events] ex_empty) = Some (Crash NullDeref)"
  by (simp add: get_pin_path_def strncmp_eq_def tokens_def map_suffix_def strtok_def ex_events_def
      run_def run_iter_def ex_create_of_def ex_create_def SYS_bpf_def BPF_MAP_CREATE_def Let_def
      pidfd_getfd_def bpf_obj_get_info_by_fd_def ex_empty_def)

text \<open>
  Claim C6, as amended. With the pinning paths \<^verbatim>\<open>root_parse\<close> sets, each of the four
  tokens resolves to its own path, the four paths are distinct and resolution is injective
  on the tokens; a suffix that begins with none of the tokens resolves to no path
  (\<^verbatim>\<open>get_pin_path\<close> returns 0 and leaves the path alone), and a map with such a suffix is
  passed over: the loop goes on and the pins are what they were.
\<close>

theorem get_pin_path_resolution:
  assumes "root_parse_pins root args0 = Inr args"
  shows "get_pin_path args (Some ''profc'') p = Inr (1, pin args 0) \<and>
         get_pin_path args (Some ''profd'') p = Inr (1, pin args 1) \<and>
         get_pin_path args (Some ''profn'') p = Inr (1, pin args 2) \<and>
         get_pin_path args (Some ''covmap'') p = Inr (1, pin args 3) \<and>
         distinct [pin args 0, pin args 1, pin args 2, pin args 3] \<and>
         inj_on (\<lambda>s. get_pin_path args (Some s) p) (set tokens) \<and>
         (\<forall>s. (\<forall>t \<in> set tokens. \<not> (\<exists>r. s = t @ r)) \<longrightarrow>
            get_pin_path args (Some s) p = Inr (0, p)) \<and>
         (\<forall>e st regs regs' m s.
            ptrace_entry e \<noteq> - 1 \<and> waitpid_entry e \<noteq> - 1 \<and> getregs_entry e = Some regs \<and>
            ptrace_exit e \<noteq> - 1 \<and> waitpid_exit e \<noteq> - 1 \<and> getregs_exit e = Inr regs' \<and>
            remote_obj e = Some m \<and> map_suffix (name (info m)) = Some s \<and>
            (\<forall>t \<in> set tokens. \<not> (\<exists>r. s = t @ r)) \<longrightarrow>
              fst (run_iter args e st) = None \<and>
              w_pins (world_of (snd (run_iter args e st))) = w_pins (world_of st))"
proof -
  note pd = root_parse_pins_paths [OF assms]
  have t: "get_pin_path args (Some ''profc'') p = Inr (1, pin args 0)"
    "get_pin_path args (Some ''profd'') p = Inr (1, pin args 1)"
    "get_pin_path args (Some ''profn'') p = Inr (1, pin args 2)"
    "get_pin_path args (Some ''covmap'') p = Inr (1, pin args 3)"
    by (simp_all add: get_pin_path_def strncmp_eq_def)
  have d: "distinct [pin args 0, pin args 1, pin args 2, pin args 3]"
    unfolding pd by simp
  have i: "inj_on (\<lambda>s. get_pin_path args (Some s) p) (set tokens)"
    using d by (auto simp: inj_on_def tokens_def t)
  have n: "\<forall>s. (\<forall>t \<in> set tokens. \<not> (\<exists>r. s = t @ r)) \<longrightarrow>
            get_pin_path args (Some s) p = Inr (0, p)"
    by (intro allI impI) (rule get_pin_path_none)
  have r: "\<forall>e st regs regs' m s.
            ptrace_entry e \<noteq> - 1 \<and> waitpid_entry e \<noteq> - 1 \<and> getregs_entry e = Some regs \<and>
            ptrace_exit e \<noteq> - 1 \<and> waitpid_exit e \<noteq> - 1 \<and> getregs_exit e = Inr regs' \<and>
            remote_obj e = Some m \<and> map_suffix (name (info m)) = Some s \<and>
            (\<forall>t \<in> set tokens. \<not> (\<exists>r. s = t @ r)) \<longrightarrow>
              fst (run_iter args e st) = None \<and>
              w_pins (world_of (snd (run_iter args e st))) = w_pins (world_of st)"
    by (intro allI impI, elim conjE) (rule run_iter_ignored)
  show ?thesis
    by (intro conjI t d i n r)
qed

theorem get_pin_path_resolution_witness:
  "get_pin_path ex_args (Some ''covmap'') [] = Inr (1, ''/b/cov/p/covmap'') \<and>
   get_pin_path ex_args (Some ''rodata'') [] = Inr (0, []) \<and>
   fst (run_iter ex_args (ex_create_of ex_rodata) st0) = None \<and>
   w_pins (world_of (snd (run_iter ex_args (ex_create_of ex_rodata) st0))) = Map.empty"
proof -
  have s: "map_suffix (name (info ex_rodata)) = Some ''rodata''"
    by (simp add: ex_rodata_def map_suffix_def strtok_def)
  have n: "\<forall>t \<in> set tokens. \<not> (\<exists>r. ''rodata'' = t @ r)"
    by (simp add: tokens_def)
  have e: "ptrace_entry (ex_create_of ex_rodata) \<noteq> - 1 \<and>
     waitpid_entry (ex_create_of ex_rodata) \<noteq> - 1 \<and>
     getregs_entry (ex_create_of ex_rodata) = Some \<lparr>orig_rax = 321, rax = - 38, rdi = 0\<rparr> \<and>
     ptrace_exit (ex_create_of ex_rodata) \<noteq> - 1 \<and>
     waitpid_exit (ex_create_of ex_rodata) \<noteq> - 1 \<and>
     getregs_exit (ex_create_of ex_rodata) = Inr \<lparr>orig_rax = 321, rax = 3, rdi = 0\<rparr> \<and>
     remote_obj (ex_create_of ex_rodata) = Some ex_rodata"
    by (simp add: ex_create_of_def ex_create_def)
  from get_pin_path_resolution [OF ex_root_parse_pins, of "[]"] s n e show ?thesis
    by (simp add: ex_pins st0_def ex_empty_def)
qed

end
